theory Spec2Isabelle
  imports Complex_Main
begin

section \<open>JavaScript numbers\<close>

text \<open>
  The oracle computes with JavaScript numbers. A number is modelled as a finite real or
  one of the three special values of IEEE arithmetic. Finite arithmetic is exact: rounding
  and overflow are not modelled, and the two zeros are identified. A quotient \<open>x / 0\<close>
  with \<open>x \<noteq> 0\<close> gets the sign of \<open>x\<close>, which is the IEEE result for the
  denominator \<open>+0\<close>; the zero denominators of the functions below are array lengths,
  sums that start from the literal \<open>0\<close>, or sit under \<open>Math.abs\<close>.
\<close>

datatype number = Fin real | PInf | NInf | NaN

fun js_neg :: "number \<Rightarrow> number" where
  "js_neg (Fin x) = Fin (- x)"
| "js_neg PInf = NInf"
| "js_neg NInf = PInf"
| "js_neg NaN = NaN"

fun js_add :: "number \<Rightarrow> number \<Rightarrow> number" where
  "js_add NaN b = NaN"
| "js_add a NaN = NaN"
| "js_add (Fin x) (Fin y) = Fin (x + y)"
| "js_add PInf NInf = NaN"
| "js_add NInf PInf = NaN"
| "js_add PInf b = PInf"
| "js_add a PInf = PInf"
| "js_add NInf b = NInf"
| "js_add a NInf = NInf"

definition js_sub :: "number \<Rightarrow> number \<Rightarrow> number" where
  "js_sub a b = js_add a (js_neg b)"

text \<open>The infinity with the sign of a non-zero real.\<close>

definition signed_inf :: "real \<Rightarrow> number" where
  "signed_inf x = (if 0 < x then PInf else NInf)"

fun js_mul :: "number \<Rightarrow> number \<Rightarrow> number" where
  "js_mul NaN b = NaN"
| "js_mul a NaN = NaN"
| "js_mul (Fin x) (Fin y) = Fin (x * y)"
| "js_mul (Fin x) PInf = (if x = 0 then NaN else signed_inf x)"
| "js_mul (Fin x) NInf = (if x = 0 then NaN else signed_inf (- x))"
| "js_mul PInf (Fin y) = (if y = 0 then NaN else signed_inf y)"
| "js_mul NInf (Fin y) = (if y = 0 then NaN else signed_inf (- y))"
| "js_mul PInf PInf = PInf"
| "js_mul PInf NInf = NInf"
| "js_mul NInf PInf = NInf"
| "js_mul NInf NInf = PInf"

fun js_div :: "number \<Rightarrow> number \<Rightarrow> number" where
  "js_div NaN b = NaN"
| "js_div a NaN = NaN"
| "js_div (Fin x) (Fin y) =
     (if y = 0 then (if x = 0 then NaN else signed_inf x) else Fin (x / y))"
| "js_div (Fin x) PInf = Fin 0"
| "js_div (Fin x) NInf = Fin 0"
| "js_div PInf (Fin y) = (if 0 \<le> y then PInf else NInf)"
| "js_div NInf (Fin y) = (if 0 \<le> y then NInf else PInf)"
| "js_div PInf b = NaN"
| "js_div NInf b = NaN"

text \<open>The comparisons \<open><\<close> and \<open><=\<close>: false as soon as one side is \<open>NaN\<close>.\<close>

fun js_lt :: "number \<Rightarrow> number \<Rightarrow> bool" where
  "js_lt NaN b = False"
| "js_lt a NaN = False"
| "js_lt (Fin x) (Fin y) = (x < y)"
| "js_lt a NInf = False"
| "js_lt NInf b = True"
| "js_lt PInf b = False"
| "js_lt (Fin x) PInf = True"

fun js_le :: "number \<Rightarrow> number \<Rightarrow> bool" where
  "js_le NaN b = False"
| "js_le a NaN = False"
| "js_le (Fin x) (Fin y) = (x \<le> y)"
| "js_le NInf b = True"
| "js_le a PInf = True"
| "js_le PInf b = False"
| "js_le (Fin x) NInf = False"

definition js_gt :: "number \<Rightarrow> number \<Rightarrow> bool" where
  "js_gt a b = js_lt b a"

definition js_ge :: "number \<Rightarrow> number \<Rightarrow> bool" where
  "js_ge a b = js_le b a"

text \<open>\<open>Math.abs\<close>, \<open>Math.sqrt\<close>, \<open>Math.min\<close> and \<open>Math.max\<close> of two arguments.\<close>

fun Math_abs :: "number \<Rightarrow> number" where
  "Math_abs (Fin x) = Fin \<bar>x\<bar>"
| "Math_abs PInf = PInf"
| "Math_abs NInf = PInf"
| "Math_abs NaN = NaN"

fun Math_sqrt :: "number \<Rightarrow> number" where
  "Math_sqrt (Fin x) = (if x < 0 then NaN else Fin (sqrt x))"
| "Math_sqrt PInf = PInf"
| "Math_sqrt NInf = NaN"
| "Math_sqrt NaN = NaN"

definition Math_min :: "number \<Rightarrow> number \<Rightarrow> number" where
  "Math_min a b = (if a = NaN \<or> b = NaN then NaN else if js_le a b then a else b)"

definition Math_max :: "number \<Rightarrow> number \<Rightarrow> number" where
  "Math_max a b = (if a = NaN \<or> b = NaN then NaN else if js_le a b then b else a)"

text \<open>\<open>Math.max(...xs)\<close>: \<open>-Infinity\<close> for no argument.\<close>

definition Math_max_list :: "number list \<Rightarrow> number" where
  "Math_max_list xs = foldl Math_max NInf xs"

text \<open>\<open>Math.pow(x, 2)\<close>, the only power the aggregation takes.\<close>

definition Math_pow2 :: "number \<Rightarrow> number" where
  "Math_pow2 x = js_mul x x"

text \<open>Truthiness of a number: \<open>0\<close> and \<open>NaN\<close> are falsy.\<close>

definition truthy :: "number \<Rightarrow> bool" where
  "truthy a = (a \<noteq> Fin 0 \<and> a \<noteq> NaN)"

text \<open>A value that may be \<open>undefined\<close>, used as a number: \<open>undefined\<close> converts to \<open>NaN\<close>.\<close>

fun to_number :: "number option \<Rightarrow> number" where
  "to_number None = NaN"
| "to_number (Some a) = a"

text \<open>Reading an array at an index: \<open>undefined\<close> outside the array.\<close>

definition at_index :: "'a list \<Rightarrow> int \<Rightarrow> 'a option" where
  "at_index xs i = (if 0 \<le> i \<and> i < int (length xs) then Some (xs ! nat i) else None)"

text \<open>\<open>values.reduce((sum, v) => sum + v, 0)\<close>.\<close>

definition sum_numbers :: "number list \<Rightarrow> number" where
  "sum_numbers xs = foldl js_add (Fin 0) xs"

text \<open>
  \<open>[...values].sort((a, b) => a - b)\<close>. The comparator orders every list without
  \<open>NaN\<close> consistently, and every engine then returns the ascending order, which this
  insertion sort computes. On a list that holds \<open>NaN\<close> the comparator is inconsistent
  (its \<open>NaN\<close> result counts as equal) and the standard leaves the order to the engine; the
  function is total there, and no statement below is about such a list.
\<close>

fun insert_by_difference :: "number \<Rightarrow> number list \<Rightarrow> number list" where
  "insert_by_difference a [] = [a]"
| "insert_by_difference a (b # bs) =
     (if js_gt (js_sub a b) (Fin 0) then b # insert_by_difference a bs else a # b # bs)"

definition sort_by_difference :: "number list \<Rightarrow> number list" where
  "sort_by_difference xs = foldr insert_by_difference xs []"

section \<open>The data model\<close>

text \<open>
  The interfaces of \<open>types/price.ts\<close> and of the oracle types. Fields that two
  interfaces share carry a prefix in all but one of them; \<open>value\<close> of \<open>OracleData\<close> is
  \<open>od_value\<close>. The optional \<open>signature\<close> and \<open>metadata\<close> of \<open>OracleData\<close> are never
  read by the code below and are left out, as are the connection fields of
  \<open>PriceSourceConfig\<close>.
\<close>

record PriceData =
  base :: string
  quote :: string
  price :: number
  timestamp :: number
  source :: string
  volume24h :: "number option"
  change24h :: "number option"
  marketCap :: "number option"
  confidence :: "number option"

record OracleData =
  od_value :: PriceData
  od_timestamp :: number
  od_source :: string

record AggregatedPriceData =
  agg_base :: string
  agg_quote :: string
  agg_price :: number
  agg_timestamp :: number
  agg_sources :: "string list"
  sourceCount :: nat
  standardDeviation :: number
  agg_confidence :: number
  outliers :: "PriceData list"

record TradingPair =
  tp_base :: string
  tp_quote :: string
  symbol :: string
  isActive :: bool
  minPrice :: number
  maxPrice :: number
  decimalPlaces :: number

record PriceSourceConfig =
  src_name :: string
  src_enabled :: bool
  weight :: number

datatype aggregation_method = Median | Average | Weighted

record PriceOracleConfig =
  supportedPairs :: "TradingPair list"
  sources :: "PriceSourceConfig list"
  aggregationMethod :: aggregation_method
  outlierThreshold :: number
  minSourcesRequired :: number
  maxPriceAge :: number
  updateInterval :: number
  deviationThreshold :: number

record OracleConfig =
  base_updateInterval :: number
  base_deviationThreshold :: number
  minSources :: number
  maxOutlierDeviation :: number
  gasLimit :: number
  retryAttempts :: int
  enabled :: bool

text \<open>
  What \<open>validateData\<close> reports. The source formats each finding into a string; the model
  keeps the finding and its data.
\<close>

datatype issue =
    UnsupportedPair string
  | InsufficientSources string nat number
  | PriceOutOfRange string number number number
  | StaleData string string number
  | HighDeviation string number

record ValidationResult =
  isValid :: bool
  errors :: "issue list"
  warnings :: "issue list"

text \<open>
  Everything the code throws: \<open>new ValidationError(msg)\<close>, \<open>new Error(msg)\<close>, the error
  of a failed validation with its findings, the \<open>TypeError\<close> of reading a property of
  \<open>undefined\<close>, and whatever a collaborator (a source, the ledger client) raised.
\<close>

datatype error =
    ValidationError string
  | Error string
  | DataValidationFailed "issue list"
  | TypeError
  | External string

section \<open>PriceOracle: aggregation\<close>

definition pairKey_of :: "string \<Rightarrow> string \<Rightarrow> string" where
  "pairKey_of b q = b @ ''/'' @ q"

text \<open>
  \<open>groupDataByPair\<close>: a \<open>Map\<close> keeps its keys in the order of their first insertion, so
  the groups are an association list.
\<close>

fun group_push :: "string \<Rightarrow> OracleData \<Rightarrow> (string \<times> OracleData list) list
    \<Rightarrow> (string \<times> OracleData list) list" where
  "group_push k d [] = [(k, [d])]"
| "group_push k d ((k', ds) # rest) =
     (if k = k' then (k', ds @ [d]) # rest else (k', ds) # group_push k d rest)"

definition groupDataByPair :: "OracleData list \<Rightarrow> (string \<times> OracleData list) list" where
  "groupDataByPair data =
     foldl (\<lambda>grouped oracleData.
              group_push (pairKey_of (base (od_value oracleData)) (quote (od_value oracleData)))
                oracleData grouped)
       [] data"

definition calculateStandardDeviation :: "number list \<Rightarrow> number" where
  "calculateStandardDeviation values =
     (let mean = js_div (sum_numbers values) (Fin (real (length values)));
          squaredDiffs = map (\<lambda>val. Math_pow2 (js_sub val mean)) values;
          variance = js_div (sum_numbers squaredDiffs) (Fin (real (length values)))
      in Math_sqrt variance)"

definition removeOutliers :: "PriceOracleConfig \<Rightarrow> OracleData list \<Rightarrow> OracleData list" where
  "removeOutliers cfg data =
     (if length data \<le> 2 then data
      else
        let prices = map (\<lambda>d. price (od_value d)) data;
            mean = js_div (sum_numbers prices) (Fin (real (length prices)));
            stdDev = calculateStandardDeviation prices;
            threshold = outlierThreshold cfg
        in filter (\<lambda>d.
             let zScore = Math_abs (js_div (js_sub (price (od_value d)) mean) stdDev)
             in js_le zScore threshold) data)"

definition calculateMedian :: "number list \<Rightarrow> number" where
  "calculateMedian values =
     (let sorted = sort_by_difference values;
          mid = int (length sorted) div 2
      in if length sorted mod 2 = 0
         then js_div (js_add (to_number (at_index sorted (mid - 1)))
                             (to_number (at_index sorted mid))) (Fin 2)
         else to_number (at_index sorted mid))"

text \<open>
  \<open>calculateWeightedAverage\<close>: \<open>sourceConfig?.weight || 1\<close> is 1 for an unknown source
  and for a falsy weight.
\<close>

definition weight_of :: "PriceOracleConfig \<Rightarrow> string \<Rightarrow> number" where
  "weight_of cfg s =
     (case find (\<lambda>c. src_name c = s) (sources cfg) of
        None \<Rightarrow> Fin 1
      | Some c \<Rightarrow> (if truthy (weight c) then weight c else Fin 1))"

definition calculateWeightedAverage :: "PriceOracleConfig \<Rightarrow> OracleData list \<Rightarrow> number" where
  "calculateWeightedAverage cfg data =
     (let (totalWeight, weightedSum) =
            foldl (\<lambda>(totalWeight, weightedSum) oracleData.
                     let w = weight_of cfg (od_source oracleData)
                     in (js_add totalWeight w,
                         js_add weightedSum (js_mul (price (od_value oracleData)) w)))
              (Fin 0, Fin 0) data
      in if js_gt totalWeight (Fin 0) then js_div weightedSum totalWeight else Fin 0)"

definition calculateConfidence :: "PriceOracleConfig \<Rightarrow> OracleData list \<Rightarrow> number" where
  "calculateConfidence cfg data =
     (let baseConfidence =
            js_mul (Math_min (js_div (Fin (real (length data))) (minSourcesRequired cfg)) (Fin 1))
              (Fin 100);
          prices = map (\<lambda>d. price (od_value d)) data;
          stdDev = calculateStandardDeviation prices;
          mean = js_div (sum_numbers prices) (Fin (real (length prices)));
          coefficient = js_div stdDev mean;
          variancePenalty = Math_min (js_mul coefficient (Fin 50)) (Fin 30)
      in Math_max (js_sub baseConfidence variancePenalty) (Fin 0))"

text \<open>
  The quantities of the specification, over the finite prices of a group: the arithmetic
  mean, the population standard deviation (the root of the mean squared distance from the
  mean), and their quotient, the coefficient of variation. The quotient is a JavaScript
  division, so that a mean of 0 gives what the specification's \<open>stddev / mean\<close> gives.
\<close>

definition population_mean :: "real list \<Rightarrow> real" where
  "population_mean xs = sum_list xs / real (length xs)"

definition population_stddev :: "real list \<Rightarrow> real" where
  "population_stddev xs =
     sqrt ((\<Sum>x\<leftarrow>xs. (x - population_mean xs)\<^sup>2) / real (length xs))"

definition coefficient_of_variation :: "real list \<Rightarrow> number" where
  "coefficient_of_variation xs = js_div (Fin (population_stddev xs)) (Fin (population_mean xs))"

text \<open>The formula of the specification, over the three quantities it names.\<close>

definition confidence_formula :: "number \<Rightarrow> number \<Rightarrow> number \<Rightarrow> number" where
  "confidence_formula cleanedCount minRequired cv =
     Math_max
       (js_sub (js_mul (Math_min (js_div cleanedCount minRequired) (Fin 1)) (Fin 100))
               (Math_min (js_mul cv (Fin 50)) (Fin 30)))
       (Fin 0)"

text \<open>\<open>[...new Set(sources)]\<close>: the first occurrence of each source, in order.\<close>

definition unique_in_order :: "string list \<Rightarrow> string list" where
  "unique_in_order xs = rev (remdups (rev xs))"

text \<open>
  \<open>aggregatePrices\<close>. On an empty array \<open>data[0]\<close> is \<open>undefined\<close> and reading its
  \<open>value\<close> throws, after the price has been computed.
\<close>

definition aggregatePrices :: "PriceOracleConfig \<Rightarrow> OracleData list \<Rightarrow> error + AggregatedPriceData"
  where
  "aggregatePrices cfg data =
     (let prices = map (\<lambda>d. price (od_value d)) data;
          srcs = map od_source data;
          timestamps = map (\<lambda>d. timestamp (od_value d)) data;
          aggregatedPrice =
            (case aggregationMethod cfg of
               Median \<Rightarrow> calculateMedian prices
             | Weighted \<Rightarrow> calculateWeightedAverage cfg data
             | Average \<Rightarrow> js_div (sum_numbers prices) (Fin (real (length prices))));
          stdDev = calculateStandardDeviation prices
      in case at_index data 0 of
           None \<Rightarrow> Inl TypeError
         | Some first \<Rightarrow>
             Inr \<lparr> agg_base = base (od_value first),
                   agg_quote = quote (od_value first),
                   agg_price = aggregatedPrice,
                   agg_timestamp = Math_max_list timestamps,
                   agg_sources = unique_in_order srcs,
                   sourceCount = length data,
                   standardDeviation = stdDev,
                   agg_confidence = calculateConfidence cfg data,
                   outliers = [] \<rparr>)"

section \<open>PriceOracle: the update gate\<close>

definition shouldUpdate :: "PriceOracleConfig \<Rightarrow> number \<Rightarrow> number \<Rightarrow> bool" where
  "shouldUpdate cfg oldPrice newPrice =
     (let changePercent = js_mul (Math_abs (js_div (js_sub newPrice oldPrice) oldPrice)) (Fin 100)
      in js_ge changePercent (deviationThreshold cfg))"

text \<open>
  \<open>submitToBlockchain\<close>. The ledger client is a parameter: what \<open>sendTransaction\<close>
  answers to the update built from the aggregated price. The \<open>catch\<close> only counts a metric
  and throws the error again.
\<close>

definition submitToBlockchain ::
  "PriceOracleConfig \<Rightarrow> (string \<rightharpoonup> AggregatedPriceData) \<Rightarrow> (AggregatedPriceData \<Rightarrow> error + string)
     \<Rightarrow> AggregatedPriceData \<Rightarrow> error + string" where
  "submitToBlockchain cfg lastPrices sendTransaction processedData =
     (let pairKey = pairKey_of (agg_base processedData) (agg_quote processedData)
      in case lastPrices pairKey of
           None \<Rightarrow> sendTransaction processedData
         | Some lastPrice \<Rightarrow>
             (if \<not> shouldUpdate cfg (agg_price lastPrice) (agg_price processedData)
              then Inr ''skipped''
              else sendTransaction processedData))"

section \<open>PriceOracle: validation and processing\<close>

definition validate_observation ::
  "PriceOracleConfig \<Rightarrow> number \<Rightarrow> string \<Rightarrow> TradingPair \<Rightarrow> issue list \<times> issue list
     \<Rightarrow> OracleData \<Rightarrow> issue list \<times> issue list" where
  "validate_observation cfg now pairKey pair acc oracleData =
     (let priceData = od_value oracleData;
          errs = (if js_lt (price priceData) (minPrice pair) \<or> js_gt (price priceData) (maxPrice pair)
                  then fst acc @ [PriceOutOfRange pairKey (price priceData) (minPrice pair) (maxPrice pair)]
                  else fst acc);
          maxAge = js_mul (maxPriceAge cfg) (Fin 1000);
          age = js_sub now (timestamp priceData);
          warns = (if js_gt age maxAge
                   then snd acc @ [StaleData pairKey (source priceData) age]
                   else snd acc)
      in (errs, warns))"

definition validate_group ::
  "PriceOracleConfig \<Rightarrow> number \<Rightarrow> issue list \<times> issue list \<Rightarrow> string \<times> OracleData list
     \<Rightarrow> issue list \<times> issue list" where
  "validate_group cfg now acc entry =
     (let pairKey = fst entry; pairData = snd entry
      in case find (\<lambda>p. pairKey_of (tp_base p) (tp_quote p) = pairKey) (supportedPairs cfg) of
           None \<Rightarrow> (fst acc @ [UnsupportedPair pairKey], snd acc)
         | Some pair \<Rightarrow>
             if js_lt (Fin (real (length pairData))) (minSourcesRequired cfg)
             then (fst acc @ [InsufficientSources pairKey (length pairData) (minSourcesRequired cfg)],
                   snd acc)
             else
               let acc1 = foldl (validate_observation cfg now pairKey pair) acc pairData;
                   prices = map (\<lambda>d. price (od_value d)) pairData;
                   deviation = calculateStandardDeviation prices;
                   mean = js_div (sum_numbers prices) (Fin (real (length prices)));
                   deviationPercent = js_mul (js_div deviation mean) (Fin 100)
               in if js_gt deviationPercent (js_mul (outlierThreshold cfg) (Fin 10))
                  then (fst acc1, snd acc1 @ [HighDeviation pairKey deviationPercent])
                  else acc1)"

definition validateData :: "PriceOracleConfig \<Rightarrow> number \<Rightarrow> OracleData list \<Rightarrow> ValidationResult" where
  "validateData cfg now data =
     (let found = foldl (validate_group cfg now) ([], []) (groupDataByPair data)
      in \<lparr> isValid = (length (fst found) = 0), errors = fst found, warnings = snd found \<rparr>)"

text \<open>
  The loop of \<open>processData\<close> over the groups, with the results collected so far and the
  \<open>lastPrices\<close> table. A throw of \<open>aggregatePrices\<close> leaves the loop with the table as
  it is then.
\<close>

fun processData_loop ::
  "PriceOracleConfig \<Rightarrow> (string \<times> OracleData list) list \<Rightarrow> AggregatedPriceData list
     \<Rightarrow> (string \<rightharpoonup> AggregatedPriceData)
     \<Rightarrow> (error + AggregatedPriceData list) \<times> (string \<rightharpoonup> AggregatedPriceData)" where
  "processData_loop cfg [] aggregatedResults lastPrices = (Inr aggregatedResults, lastPrices)"
| "processData_loop cfg ((pairKey, pairData) # rest) aggregatedResults lastPrices =
     (case find (\<lambda>p. pairKey_of (tp_base p) (tp_quote p) = pairKey) (supportedPairs cfg) of
        None \<Rightarrow> processData_loop cfg rest aggregatedResults lastPrices
      | Some pair \<Rightarrow>
          if length pairData = 0 then processData_loop cfg rest aggregatedResults lastPrices
          else
            let cleanedData = removeOutliers cfg pairData
            in if js_lt (Fin (real (length cleanedData))) (minSourcesRequired cfg)
               then processData_loop cfg rest aggregatedResults lastPrices
               else
                 (case aggregatePrices cfg cleanedData of
                    Inl e \<Rightarrow> (Inl e, lastPrices)
                  | Inr aggregatedPrice \<Rightarrow>
                      processData_loop cfg rest (aggregatedResults @ [aggregatedPrice])
                        (lastPrices(pairKey \<mapsto> aggregatedPrice))))"

definition processData ::
  "PriceOracleConfig \<Rightarrow> OracleData list \<Rightarrow> (string \<rightharpoonup> AggregatedPriceData)
     \<Rightarrow> (error + AggregatedPriceData) \<times> (string \<rightharpoonup> AggregatedPriceData)" where
  "processData cfg data lastPrices =
     (case processData_loop cfg (groupDataByPair data) [] lastPrices of
        (Inl e, lastPrices') \<Rightarrow> (Inl e, lastPrices')
      | (Inr aggregatedResults, lastPrices') \<Rightarrow>
          (case aggregatedResults of
             [] \<Rightarrow> (Inl (ValidationError ''No valid aggregated price data available''), lastPrices')
           | first # _ \<Rightarrow> (Inr first, lastPrices')))"

text \<open>
  The two tests of the loop, named: the pair of a group is one of the supported pairs, and
  the group is below the floor after outlier removal. And the key under which
  \<open>submitToBlockchain\<close> looks an aggregated price up.
\<close>

definition supported :: "PriceOracleConfig \<Rightarrow> string \<Rightarrow> bool" where
  "supported cfg pairKey =
     (find (\<lambda>p. pairKey_of (tp_base p) (tp_quote p) = pairKey) (supportedPairs cfg) \<noteq> None)"

definition below_floor :: "PriceOracleConfig \<Rightarrow> OracleData list \<Rightarrow> bool" where
  "below_floor cfg pairData =
     js_lt (Fin (real (length (removeOutliers cfg pairData)))) (minSourcesRequired cfg)"

definition agg_key :: "AggregatedPriceData \<Rightarrow> string" where
  "agg_key a = pairKey_of (agg_base a) (agg_quote a)"

definition data_key :: "OracleData \<Rightarrow> string" where
  "data_key d = pairKey_of (base (od_value d)) (quote (od_value d))"

section \<open>OracleBase: the retry delay\<close>

text \<open>
  \<open>calculateRetryDelay(attempt)\<close>, with the draw of \<open>Math.random()\<close> as a parameter.
  The attempt is the integer loop counter of \<open>fetchDataWithRetry\<close> and the draw is a
  finite number, so every intermediate value is finite and the function is written over
  the reals; \<open>Math.floor\<close> makes the result an integer.
\<close>

definition pow2 :: "int \<Rightarrow> real" where
  "pow2 e = (if 0 \<le> e then 2 ^ nat e else 1 / 2 ^ nat (- e))"

definition calculateRetryDelay :: "int \<Rightarrow> real \<Rightarrow> int" where
  "calculateRetryDelay attempt random =
     (let baseDelay = 1000;
          maxDelay = 30000;
          delay = min (baseDelay * pow2 (attempt - 1)) maxDelay;
          jitter = random * 0.1 * delay
      in \<lfloor>delay + jitter\<rfloor>)"

text \<open>The delay before jitter, as the specification writes it.\<close>

definition backoff_base :: "int \<Rightarrow> real" where
  "backoff_base n = min (1000 * 2 ^ nat (n - 1)) 30000"

section \<open>OracleBase: the lifecycle\<close>

text \<open>
  The fields of \<open>OracleBase\<close> and the \<open>lastPrices\<close> table of \<open>PriceOracle\<close>, together
  with the part of the runtime the controller talks to: the timeouts that are pending
  (\<open>setTimeout\<close> adds a fresh handle, \<open>clearTimeout\<close> and the firing remove it).
  \<open>updateTimer\<close> holds the handle of the last \<open>setTimeout\<close>, also after it has fired.
  Every operation runs to its end before the next one starts; logging and metrics are
  left out.
\<close>

record OracleState =
  isRunning :: bool
  updateTimer :: "nat option"
  errorCount :: nat
  totalUpdates :: nat
  lastUpdateTime :: int
  lastPrices :: "string \<rightharpoonup> AggregatedPriceData"
  pendingTimers :: "nat set"
  nextHandle :: nat

text \<open>
  What the outside world answers during one cycle: the outcome of each call of
  \<open>fetchData\<close> by attempt number, the ledger client, and the clock.
\<close>

record CycleIO =
  fetchData :: "int \<Rightarrow> error + OracleData list"
  sendTransaction :: "AggregatedPriceData \<Rightarrow> error + string"
  now :: int

definition initial_state :: OracleState where
  "initial_state =
     \<lparr> isRunning = False, updateTimer = None, errorCount = 0, totalUpdates = 0,
       lastUpdateTime = 0, lastPrices = Map.empty, pendingTimers = {}, nextHandle = 0 \<rparr>"

definition stop :: "OracleState \<Rightarrow> OracleState" where
  "stop st =
     (if \<not> isRunning st then st
      else
        let st1 = st\<lparr>isRunning := False\<rparr>
        in case updateTimer st1 of
             None \<Rightarrow> st1
           | Some h \<Rightarrow> st1\<lparr>pendingTimers := pendingTimers st1 - {h}, updateTimer := None\<rparr>)"

definition scheduleUpdates :: "OracleState \<Rightarrow> OracleState" where
  "scheduleUpdates st =
     (if \<not> isRunning st then st
      else st\<lparr>updateTimer := Some (nextHandle st),
              pendingTimers := insert (nextHandle st) (pendingTimers st),
              nextHandle := Suc (nextHandle st)\<rparr>)"

text \<open>
  \<open>fetchDataWithRetry\<close>: attempts \<open>1 .. retryAttempts\<close>, the first success returns; the
  waits between attempts take time only.
\<close>

function fetchDataWithRetry_loop ::
  "int \<Rightarrow> (int \<Rightarrow> error + OracleData list) \<Rightarrow> int \<Rightarrow> error option \<Rightarrow> error + OracleData list"
  where
  "fetchDataWithRetry_loop retries fetch attempt lastError =
     (if attempt \<le> retries
      then (case fetch attempt of
              Inr data \<Rightarrow> Inr data
            | Inl e \<Rightarrow> fetchDataWithRetry_loop retries fetch (attempt + 1) (Some e))
      else (case lastError of
              Some e \<Rightarrow> Inl e
            | None \<Rightarrow> Inl (Error ''All fetch attempts failed'')))"
  by pat_completeness auto
termination
  by (relation "measure (\<lambda>(retries, fetch, attempt, lastError). nat (retries + 1 - attempt))") auto

declare fetchDataWithRetry_loop.simps [simp del]

definition fetchDataWithRetry :: "OracleConfig \<Rightarrow> CycleIO \<Rightarrow> error + OracleData list" where
  "fetchDataWithRetry config io = fetchDataWithRetry_loop (retryAttempts config) (fetchData io) 1 None"

text \<open>
  The \<open>try\<close> block of \<open>performUpdate\<close> up to the submission. Of the state it reads
  and writes the \<open>lastPrices\<close> table only (in \<open>processData\<close>); it yields the
  transaction hash or the error thrown, and the table.
\<close>

definition performUpdate_try ::
  "OracleConfig \<Rightarrow> PriceOracleConfig \<Rightarrow> CycleIO \<Rightarrow> (string \<rightharpoonup> AggregatedPriceData)
     \<Rightarrow> (error + string) \<times> (string \<rightharpoonup> AggregatedPriceData)"
  where
  "performUpdate_try config cfg io table =
     (case fetchDataWithRetry config io of
        Inl e \<Rightarrow> (Inl e, table)
      | Inr rawData \<Rightarrow>
          let validation = validateData cfg (Fin (of_int (now io))) rawData
          in if \<not> isValid validation then (Inl (DataValidationFailed (errors validation)), table)
             else
               (case processData cfg rawData table of
                  (Inl e, table') \<Rightarrow> (Inl e, table')
                | (Inr processedData, table') \<Rightarrow>
                    (submitToBlockchain cfg table' (sendTransaction io) processedData, table')))"

text \<open>
  \<open>performUpdate\<close>: the result is \<open>Inl\<close> when the function throws to its caller.
\<close>

definition performUpdate ::
  "OracleConfig \<Rightarrow> PriceOracleConfig \<Rightarrow> CycleIO \<Rightarrow> OracleState \<Rightarrow> (error + unit) \<times> OracleState"
  where
  "performUpdate config cfg io st =
     (case performUpdate_try config cfg io (lastPrices st) of
        (Inr txHash, table') \<Rightarrow>
          (Inr (), st\<lparr>lastPrices := table', totalUpdates := totalUpdates st + 1,
                      lastUpdateTime := now io\<rparr>)
      | (Inl e, table') \<Rightarrow>
          let st1 = st\<lparr>lastPrices := table', errorCount := errorCount st + 1\<rparr>
          in if int (errorCount st1) \<ge> retryAttempts config
             then (Inl e, stop st1)
             else (Inr (), st1))"

definition start ::
  "OracleConfig \<Rightarrow> PriceOracleConfig \<Rightarrow> CycleIO \<Rightarrow> OracleState \<Rightarrow> (error + unit) \<times> OracleState"
  where
  "start config cfg io st =
     (if isRunning st then (Inr (), st)
      else if \<not> enabled config then (Inr (), st)
      else
        (case performUpdate config cfg io (st\<lparr>isRunning := True\<rparr>) of
           (Inl e, st1) \<Rightarrow> (Inl e, st1)
         | (Inr u, st1) \<Rightarrow> (Inr (), scheduleUpdates st1)))"

definition forceUpdate ::
  "OracleConfig \<Rightarrow> PriceOracleConfig \<Rightarrow> CycleIO \<Rightarrow> OracleState \<Rightarrow> (error + unit) \<times> OracleState"
  where
  "forceUpdate config cfg io st = performUpdate config cfg io st"

text \<open>
  The callback that \<open>scheduleUpdates\<close> hands to \<open>setTimeout\<close>, run when the pending
  timeout \<open>h\<close> fires: it catches what \<open>performUpdate\<close> throws and schedules again.
\<close>

definition scheduledUpdate ::
  "OracleConfig \<Rightarrow> PriceOracleConfig \<Rightarrow> CycleIO \<Rightarrow> nat \<Rightarrow> OracleState \<Rightarrow> OracleState" where
  "scheduledUpdate config cfg io h st =
     (let st0 = st\<lparr>pendingTimers := pendingTimers st - {h}\<rparr>;
          st1 = snd (performUpdate config cfg io st0)
      in scheduleUpdates st1)"

section \<open>DataFetcher: validatePriceData\<close>

text \<open>
  The argument is a \<open>Partial<PriceData>\<close> built from a response: every field may be
  absent, and the price may be a value that is not of type number.
\<close>

datatype js_value = Undefined | Str string | Num number

record PartialPriceData =
  p_base :: "string option"
  p_quote :: "string option"
  p_price :: js_value
  p_timestamp :: "number option"
  p_volume24h :: "number option"
  p_change24h :: "number option"
  p_marketCap :: "number option"
  p_confidence :: "number option"

text \<open>\<open>!s\<close> for an optional string and \<open>!n\<close> for an optional number.\<close>

fun falsy_string :: "string option \<Rightarrow> bool" where
  "falsy_string None = True"
| "falsy_string (Some s) = (s = [])"

fun falsy_number :: "number option \<Rightarrow> bool" where
  "falsy_number None = True"
| "falsy_number (Some a) = (\<not> truthy a)"

text \<open>\<open>typeof v === 'number'\<close>.\<close>

fun typeof_number :: "js_value \<Rightarrow> bool" where
  "typeof_number (Num a) = True"
| "typeof_number v = False"

definition validatePriceData :: "string \<Rightarrow> int \<Rightarrow> PartialPriceData \<Rightarrow> error + PriceData" where
  "validatePriceData name clock data =
     (if falsy_string (p_base data) \<or> falsy_string (p_quote data) \<or> \<not> typeof_number (p_price data)
      then Inl (Error ''Invalid price data structure'')
      else
        (case (p_base data, p_quote data, p_price data) of
           (Some b, Some q, Num p) \<Rightarrow>
             if js_le p (Fin 0) then Inl (Error ''Price must be positive'')
             else
               let ts = (if falsy_number (p_timestamp data) then Fin (of_int clock)
                         else to_number (p_timestamp data))
               in Inr \<lparr> base = b, quote = q, price = p, timestamp = ts, source = name,
                        volume24h = p_volume24h data, change24h = p_change24h data,
                        marketCap = p_marketCap data,
                        confidence = Some (if falsy_number (p_confidence data) then Fin 100
                                           else to_number (p_confidence data)) \<rparr>
         | _ \<Rightarrow> Inl (Error ''Invalid price data structure'')))"

section \<open>Example inputs\<close>

text \<open>
  A configuration for the examples below. Its method and thresholds are the values that
  \<open>index.ts\<close> falls back to (median, outlier threshold 2, two sources required, deviation
  threshold 1 percent) and the three retry attempts are what \<open>PriceOracle\<close> passes to its
  base class. Its supported pairs are not those of \<open>index.ts\<close>: it supports the one pair
  BTC/USD, with a price range wide enough for the round prices of the examples. Then an
  observation of that pair by a named source.
\<close>

definition btc_usd :: TradingPair where
  "btc_usd =
     \<lparr> tp_base = ''BTC'', tp_quote = ''USD'', symbol = ''BTCUSD'', isActive = True,
       minPrice = Fin (1 / 1000000), maxPrice = Fin 1000000, decimalPlaces = Fin 6 \<rparr>"

definition default_config :: PriceOracleConfig where
  "default_config =
     \<lparr> supportedPairs = [btc_usd],
       sources = [\<lparr> src_name = ''coingecko'', src_enabled = True, weight = Fin 1 \<rparr>,
                  \<lparr> src_name = ''binance'', src_enabled = True, weight = Fin 1 \<rparr>,
                  \<lparr> src_name = ''coinmarketcap'', src_enabled = True, weight = Fin 1 \<rparr>],
       aggregationMethod = Median, outlierThreshold = Fin 2, minSourcesRequired = Fin 2,
       maxPriceAge = Fin 300, updateInterval = Fin 300, deviationThreshold = Fin 1 \<rparr>"

definition default_oracle_config :: OracleConfig where
  "default_oracle_config =
     \<lparr> base_updateInterval = Fin 300, base_deviationThreshold = Fin 1, minSources = Fin 2,
       maxOutlierDeviation = Fin 2, gasLimit = Fin 1000000, retryAttempts = 3, enabled = True \<rparr>"

definition observed :: "string \<Rightarrow> real \<Rightarrow> OracleData" where
  "observed src p =
     \<lparr> od_value = \<lparr> base = ''BTC'', quote = ''USD'', price = Fin p, timestamp = Fin 1700000000000,
                     source = src, volume24h = None, change24h = None, marketCap = None,
                     confidence = Some (Fin 95) \<rparr>,
       od_timestamp = Fin 1700000000000, od_source = src \<rparr>"

text \<open>What two sources that both report 100 aggregate to under that configuration.\<close>

definition agreed :: AggregatedPriceData where
  "agreed =
     \<lparr> agg_base = ''BTC'', agg_quote = ''USD'', agg_price = Fin 100,
       agg_timestamp = Fin 1700000000000, agg_sources = [''coingecko'', ''binance''],
       sourceCount = 2, standardDeviation = Fin 0, agg_confidence = Fin 100, outliers = [] \<rparr>"

text \<open>
  Two answers of the outside world: every source is down, so \<open>PriceOracle.fetchData\<close>
  returns no observation; and two sources report the same price. The ledger accepts
  whatever it is sent.
\<close>

definition sources_down :: CycleIO where
  "sources_down =
     \<lparr> fetchData = (\<lambda>attempt. Inr []), sendTransaction = (\<lambda>update. Inr ''tx-hash''),
       now = 1700000000500 \<rparr>"

definition sources_agree :: CycleIO where
  "sources_agree =
     \<lparr> fetchData = (\<lambda>attempt. Inr [observed ''coingecko'' 100, observed ''binance'' 100]),
       sendTransaction = (\<lambda>update. Inr ''tx-hash''),
       now = 1700000000500 \<rparr>"

text \<open>
  An operator who asks for all of five sources and rejects beyond 1.5 deviations, and a
  cycle in which four sources report 100 and the fifth 150.
\<close>

definition strict_config :: PriceOracleConfig where
  "strict_config = default_config\<lparr>outlierThreshold := Fin (3 / 2), minSourcesRequired := Fin 5\<rparr>"

definition four_and_one :: "OracleData list" where
  "four_and_one =
     [observed ''coingecko'' 100, observed ''binance'' 100, observed ''coinmarketcap'' 100,
      observed ''kraken'' 100, observed ''okx'' 150]"

definition one_outlier :: CycleIO where
  "one_outlier =
     \<lparr> fetchData = (\<lambda>attempt. Inr four_and_one), sendTransaction = (\<lambda>update. Inr ''tx-hash''),
       now = 1700000000500 \<rparr>"

section \<open>The states a controller reaches\<close>

text \<open>
  The states that the public operations and the firing of a pending timeout reach from
  \<open>initial_state\<close>, under any configuration (\<open>updateConfig\<close> may change it between two
  operations) and any answers of the outside world.
\<close>

inductive reachable :: "OracleState \<Rightarrow> bool" where
  constructed: "reachable initial_state"
| started: "reachable st \<Longrightarrow> reachable (snd (start config cfg io st))"
| stopped: "reachable st \<Longrightarrow> reachable (stop st)"
| forced: "reachable st \<Longrightarrow> reachable (snd (forceUpdate config cfg io st))"
| fired: "reachable st \<Longrightarrow> h \<in> pendingTimers st \<Longrightarrow>
      reachable (scheduledUpdate config cfg io h st)"

text \<open>
  What holds of the timers in each of these states: a pending timeout is the one whose
  handle \<open>updateTimer\<close> holds, and none is pending while the oracle is not running.
\<close>

definition timers_consistent :: "OracleState \<Rightarrow> bool" where
  "timers_consistent st =
     (pendingTimers st \<subseteq> (case updateTimer st of None \<Rightarrow> {} | Some h \<Rightarrow> {h})
      \<and> (isRunning st \<or> pendingTimers st = {}))"

section \<open>Retry delay: results\<close>

lemma pow2_nonneg_exponent: "0 \<le> e \<Longrightarrow> pow2 e = 2 ^ nat e"
  by (simp add: pow2_def)

lemma backoff_base_integral: "1 \<le> n \<Longrightarrow> \<exists>k::int. backoff_base n = of_int k \<and> 1000 \<le> k"
proof -
  assume "1 \<le> n"
  have "backoff_base n = of_int (min (1000 * 2 ^ nat (n - 1)) 30000)"
    unfolding backoff_base_def by (simp add: of_int_min)
  moreover have "(1000::int) \<le> min (1000 * 2 ^ nat (n - 1)) 30000"
    by simp
  ultimately show ?thesis by blast
qed

text \<open>
  Claim C9. For every attempt number \<open>n \<ge> 1\<close> and every draw \<open>0 \<le> r < 1\<close> of
  \<open>Math.random()\<close>, the retry delay is the base \<open>min(1000 * 2^(n-1), 30000)\<close> plus the
  jitter \<open>r * 0.1 * base\<close>, rounded down to whole milliseconds, and lies between the base
  and 1.1 times the base.
\<close>

theorem calculateRetryDelay_bounds:
  assumes "1 \<le> n" and "0 \<le> r" and "r < 1"
  shows "calculateRetryDelay n r = \<lfloor>backoff_base n + r * 0.1 * backoff_base n\<rfloor>
       \<and> backoff_base n \<le> of_int (calculateRetryDelay n r)
       \<and> of_int (calculateRetryDelay n r) \<le> 1.1 * backoff_base n"
proof -
  obtain k :: int where k: "backoff_base n = of_int k" and kpos: "1000 \<le> k"
    using backoff_base_integral [OF assms(1)] by blast
  have eq: "calculateRetryDelay n r = \<lfloor>backoff_base n + r * 0.1 * backoff_base n\<rfloor>"
    using assms(1) by (simp add: calculateRetryDelay_def backoff_base_def pow2_nonneg_exponent Let_def)
  have jit: "0 \<le> r * 0.1 * backoff_base n"
    using assms(2) kpos k by simp
  have "of_int k \<le> backoff_base n + r * 0.1 * backoff_base n"
    using jit k by simp
  then have lo: "k \<le> \<lfloor>backoff_base n + r * 0.1 * backoff_base n\<rfloor>"
    by (simp add: le_floor_iff)
  have "r * 0.1 * backoff_base n \<le> 0.1 * backoff_base n"
    using assms(3) kpos k by simp
  then have "backoff_base n + r * 0.1 * backoff_base n \<le> 1.1 * backoff_base n"
    by simp
  moreover have "of_int \<lfloor>backoff_base n + r * 0.1 * backoff_base n\<rfloor>
      \<le> backoff_base n + r * 0.1 * backoff_base n"
    by (rule of_int_floor_le)
  ultimately have hi: "of_int \<lfloor>backoff_base n + r * 0.1 * backoff_base n\<rfloor>
      \<le> 1.1 * backoff_base n"
    by linarith
  from eq lo hi k show ?thesis by simp
qed

theorem calculateRetryDelay_bounds_witness:
  "calculateRetryDelay 3 (1 / 2) = 4200
   \<and> backoff_base 3 \<le> of_int (calculateRetryDelay 3 (1 / 2))
   \<and> of_int (calculateRetryDelay 3 (1 / 2)) \<le> 1.1 * backoff_base 3"
proof -
  have b: "backoff_base 3 = 4000"
    by (simp add: backoff_base_def)
  have "\<lfloor>backoff_base 3 + (1 / 2) * 0.1 * backoff_base 3\<rfloor> = 4200"
    unfolding b by simp
  then show ?thesis
    using calculateRetryDelay_bounds [of 3 "1 / 2"] by simp
qed

section \<open>Median: results\<close>

lemma insert_by_difference_Fin:
  "insert_by_difference (Fin x) (map Fin ys) = map Fin (insort x ys)"
  by (induction ys) (auto simp: js_gt_def js_sub_def)

lemma sort_by_difference_Fin: "sort_by_difference (map Fin xs) = map Fin (sort xs)"
  by (induction xs) (auto simp: sort_by_difference_def insert_by_difference_Fin)

lemma length_insert_by_difference: "length (insert_by_difference a bs) = Suc (length bs)"
  by (induction bs) auto

lemma length_sort_by_difference: "length (sort_by_difference xs) = length xs"
  by (induction xs) (auto simp: sort_by_difference_def length_insert_by_difference)

lemma at_index_of_nat: "i < length xs \<Longrightarrow> at_index xs (int i) = Some (xs ! i)"
  by (simp add: at_index_def)

lemma half_as_int: "int n div 2 = int (n div 2)"
  by simp

lemma half_minus_one: "2 \<le> n \<Longrightarrow> int n div 2 - 1 = int (n div 2 - 1)"
proof -
  assume "2 \<le> n"
  then have "1 \<le> n div 2" by simp
  then have "int (n div 2 - 1) = int (n div 2) - 1" by simp
  then show ?thesis by simp
qed

text \<open>On a non-empty array both reads of \<open>calculateMedian\<close> are inside the array.\<close>

lemma calculateMedian_in_range:
  assumes "values \<noteq> []"
  shows "calculateMedian values =
     (if odd (length values) then sort_by_difference values ! (length values div 2)
      else js_div (js_add (sort_by_difference values ! (length values div 2 - 1))
                          (sort_by_difference values ! (length values div 2))) (Fin 2))"
proof -
  let ?n = "length values"
  let ?s = "sort_by_difference values"
  have n: "0 < ?n" using assms by simp
  have len: "length ?s = ?n" by (rule length_sort_by_difference)
  have "?n div 2 < length ?s" using n len by simp
  then have "at_index ?s (int (?n div 2)) = Some (?s ! (?n div 2))"
    by (rule at_index_of_nat)
  then have mid: "to_number (at_index ?s (int (length ?s) div 2)) = ?s ! (?n div 2)"
    unfolding len half_as_int by simp
  show ?thesis
  proof (cases "odd ?n")
    case True
    then have "length ?s mod 2 \<noteq> 0" unfolding len by presburger
    then have "calculateMedian values = to_number (at_index ?s (int (length ?s) div 2))"
      unfolding calculateMedian_def Let_def by (rule if_not_P)
    with True mid show ?thesis by simp
  next
    case False
    then have two: "2 \<le> ?n" using n by presburger
    then have "?n div 2 - 1 < length ?s" using len by simp
    then have "at_index ?s (int (?n div 2 - 1)) = Some (?s ! (?n div 2 - 1))"
      by (rule at_index_of_nat)
    then have low: "to_number (at_index ?s (int (length ?s) div 2 - 1)) = ?s ! (?n div 2 - 1)"
      unfolding len half_minus_one [OF two] by simp
    from False have "length ?s mod 2 = 0" unfolding len by presburger
    then have "calculateMedian values =
        js_div (js_add (to_number (at_index ?s (int (length ?s) div 2 - 1)))
                       (to_number (at_index ?s (int (length ?s) div 2)))) (Fin 2)"
      unfolding calculateMedian_def Let_def by (rule if_P)
    with False mid low show ?thesis by simp
  qed
qed

lemma calculateMedian_finite:
  assumes ne: "xs \<noteq> []"
  shows "calculateMedian (map Fin xs) =
        Fin (if odd (length xs) then sort xs ! (length xs div 2)
             else (sort xs ! (length xs div 2 - 1) + sort xs ! (length xs div 2)) / 2)"
proof -
  let ?n = "length xs"
  let ?s = "sort xs"
  have n: "0 < ?n" using ne by simp
  have hi: "?n div 2 < length ?s" using n by simp
  have lo: "?n div 2 - 1 < length ?s" using hi by simp
  have m1: "map Fin ?s ! (?n div 2) = Fin (?s ! (?n div 2))"
    using hi by (rule nth_map)
  have m2: "map Fin ?s ! (?n div 2 - 1) = Fin (?s ! (?n div 2 - 1))"
    using lo by (rule nth_map)
  have "map Fin xs \<noteq> []" using ne by simp
  from calculateMedian_in_range [OF this]
  have "calculateMedian (map Fin xs) =
     (if odd ?n then map Fin ?s ! (?n div 2)
      else js_div (js_add (map Fin ?s ! (?n div 2 - 1)) (map Fin ?s ! (?n div 2))) (Fin 2))"
    unfolding sort_by_difference_Fin length_map .
  then show ?thesis
    unfolding m1 m2 by simp
qed

text \<open>
  Claim C8. For every non-empty list of prices \<open>calculateMedian\<close> returns the middle
  element of the sorted list when the length is odd and half the sum of the two middle
  elements when it is even. The first part is about any numbers and the order the
  comparator \<open>a - b\<close> gives; the second part is about finite prices and the ascending
  order of the reals. \<open>median([100, 200, 300]) = 200\<close> and \<open>median([100, 200]) = 150\<close>
  are instances of it, stated after the theorem.
\<close>

theorem calculateMedian_middle:
  "(values \<noteq> [] \<longrightarrow>
      calculateMedian values =
        (if odd (length values) then sort_by_difference values ! (length values div 2)
         else js_div (js_add (sort_by_difference values ! (length values div 2 - 1))
                             (sort_by_difference values ! (length values div 2))) (Fin 2)))
   \<and> (xs \<noteq> [] \<longrightarrow>
      calculateMedian (map Fin xs) =
        Fin (if odd (length xs) then sort xs ! (length xs div 2)
             else (sort xs ! (length xs div 2 - 1) + sort xs ! (length xs div 2)) / 2))"
  using calculateMedian_in_range [of "values"] calculateMedian_finite [of xs]
  by blast

theorem calculateMedian_middle_witness:
  "calculateMedian [Fin 100, Fin 200, Fin 300] = Fin 200
   \<and> calculateMedian [Fin 100, Fin 200] = Fin 150
   \<and> calculateMedian [Fin 300, Fin 100, Fin 200] = Fin 200"
proof -
  have a: "calculateMedian (map Fin [100, 200, 300]) = Fin 200"
    using calculateMedian_middle [of "[Fin 1]" "[100, 200, 300]"] by simp
  have b: "calculateMedian (map Fin [100, 200]) = Fin 150"
    using calculateMedian_middle [of "[Fin 1]" "[100, 200]"] by simp
  have c: "calculateMedian [Fin 300, Fin 100, Fin 200] = Fin 200"
    using calculateMedian_middle [of "[Fin 300, Fin 100, Fin 200]" "[1]"]
    by (simp add: sort_by_difference_def js_gt_def js_sub_def)
  from a b c show ?thesis by simp
qed

section \<open>Confidence: results\<close>

lemma Math_max_zero_not_negative: "\<not> js_lt (Math_max a (Fin 0)) (Fin 0)"
  by (cases a) (auto simp: Math_max_def)

text \<open>On finite prices the code's sums, mean and deviation are those of the specification.\<close>

lemma foldl_js_add_Fin: "foldl js_add (Fin a) (map Fin xs) = Fin (a + sum_list xs)"
  by (induction xs arbitrary: a) (simp_all add: add.assoc)

lemma sum_numbers_Fin: "sum_numbers (map Fin xs) = Fin (sum_list xs)"
  using foldl_js_add_Fin [of 0 xs] by (simp add: sum_numbers_def)

lemma mean_Fin:
  assumes "xs \<noteq> []"
  shows "js_div (sum_numbers (map Fin xs)) (Fin (real (length (map Fin xs)))) = Fin (population_mean xs)"
  using assms by (simp add: sum_numbers_Fin population_mean_def)

lemma squared_differences_Fin:
  "map (\<lambda>val. Math_pow2 (js_sub val (Fin m))) (map Fin xs) = map Fin (map (\<lambda>x. (x - m)\<^sup>2) xs)"
  by (simp add: Math_pow2_def js_sub_def power2_eq_square)

lemma calculateStandardDeviation_Fin:
  assumes "xs \<noteq> []"
  shows "calculateStandardDeviation (map Fin xs) = Fin (population_stddev xs)"
proof -
  let ?m = "population_mean xs"
  let ?v = "(\<Sum>x\<leftarrow>xs. (x - ?m)\<^sup>2) / real (length xs)"
  have n: "real (length xs) \<noteq> 0" using assms by simp
  have "0 \<le> (\<Sum>x\<leftarrow>xs. (x - ?m)\<^sup>2)"
    by (rule sum_list_nonneg) auto
  then have nonneg: "\<not> ?v < 0"
    by (simp add: not_less)
  have "js_div (sum_numbers (map Fin (map (\<lambda>x. (x - ?m)\<^sup>2) xs))) (Fin (real (length xs))) = Fin ?v"
    unfolding sum_numbers_Fin using n by simp
  then have "calculateStandardDeviation (map Fin xs) = Math_sqrt (Fin ?v)"
    unfolding calculateStandardDeviation_def Let_def mean_Fin [OF assms] squared_differences_Fin
    by simp
  also have "\<dots> = Fin (sqrt ?v)"
    using nonneg by simp
  finally show ?thesis
    by (simp add: population_stddev_def)
qed

lemma calculateConfidence_as_formula:
  assumes "xs \<noteq> []" and "map (\<lambda>d. price (od_value d)) data = map Fin xs"
  shows "calculateConfidence cfg data =
     confidence_formula (Fin (real (length xs))) (minSourcesRequired cfg)
       (coefficient_of_variation xs)"
proof -
  have len: "length data = length xs"
    using arg_cong [OF assms(2), of length] by simp
  show ?thesis
    unfolding calculateConfidence_def Let_def assms(2)
      calculateStandardDeviation_Fin [OF assms(1)] mean_Fin [OF assms(1)]
    by (simp add: confidence_formula_def coefficient_of_variation_def len)
qed

lemma confidence_formula_no_increase:
  "js_le cv1 cv2 \<Longrightarrow> \<not> js_lt (confidence_formula n m cv1) (confidence_formula n m cv2)"
  by (cases n; cases m; cases cv1; cases cv2)
     (auto simp: confidence_formula_def Math_max_def Math_min_def js_sub_def signed_inf_def
           split: if_splits)

lemma confidence_formula_antitone:
  "js_le cv1 cv2 \<Longrightarrow> js_div (Fin k) m \<noteq> NaN \<Longrightarrow> 0 \<le> k \<Longrightarrow>
     js_le (confidence_formula (Fin k) m cv2) (confidence_formula (Fin k) m cv1)"
  by (cases m; cases cv1; cases cv2)
     (auto simp: confidence_formula_def Math_max_def Math_min_def js_sub_def signed_inf_def
           split: if_splits)

text \<open>The formula in plain real arithmetic, when neither quotient divides by 0.\<close>

lemma Math_min_Fin: "Math_min (Fin a) (Fin b) = Fin (min a b)"
  by (simp add: Math_min_def min_def)

lemma Math_max_Fin: "Math_max (Fin a) (Fin b) = Fin (max a b)"
  by (simp add: Math_max_def max_def)

lemma js_sub_Fin: "js_sub (Fin a) (Fin b) = Fin (a - b)"
  by (simp add: js_sub_def)

lemma confidence_formula_real:
  assumes "m \<noteq> 0" and "population_mean xs \<noteq> 0"
  shows "confidence_formula (Fin (real (length xs))) (Fin m) (coefficient_of_variation xs) =
     Fin (max (min (real (length xs) / m) 1 * 100
               - min (population_stddev xs / population_mean xs * 50) 30) 0)"
proof -
  have q: "js_div (Fin (real (length xs))) (Fin m) = Fin (real (length xs) / m)"
    using assms(1) by simp
  have cv: "coefficient_of_variation xs = Fin (population_stddev xs / population_mean xs)"
    using assms(2) by (simp add: coefficient_of_variation_def)
  show ?thesis
    unfolding confidence_formula_def q cv
    by (simp only: js_mul.simps Math_min_Fin Math_max_Fin js_sub_Fin)
qed

text \<open>
  Claim C7. For a non-empty group of finite prices the confidence that the code computes
  is \<open>max(min(count / minSourcesRequired, 1) * 100 - min(cv * 50, 30), 0)\<close>, where \<open>cv\<close>
  is the population standard deviation of the prices over their arithmetic mean; with a
  floor and a mean other than 0 this is the same expression in real arithmetic. Between
  two groups of the same size, the one with the larger coefficient of variation never has
  the larger confidence, and has a confidence that is less or equal whenever
  \<open>count / minSourcesRequired\<close> is a number. The confidence of any group is never below
  0 (it is \<open>NaN\<close> when an operand is, for example when the mean and the deviation are both
  0).
\<close>

theorem calculateConfidence_formula_antitone:
  "(xs \<noteq> [] \<and> map (\<lambda>d. price (od_value d)) data = map Fin xs \<longrightarrow>
      calculateConfidence cfg data =
        confidence_formula (Fin (real (length xs))) (minSourcesRequired cfg)
          (coefficient_of_variation xs))
   \<and> (xs \<noteq> [] \<and> map (\<lambda>d. price (od_value d)) data = map Fin xs
        \<and> minSourcesRequired cfg = Fin m \<and> m \<noteq> 0 \<and> population_mean xs \<noteq> 0 \<longrightarrow>
      calculateConfidence cfg data =
        Fin (max (min (real (length xs) / m) 1 * 100
                  - min (population_stddev xs / population_mean xs * 50) 30) 0))
   \<and> (xsa \<noteq> [] \<and> length xsa = length xsb
        \<and> map (\<lambda>d. price (od_value d)) da = map Fin xsa
        \<and> map (\<lambda>d. price (od_value d)) db = map Fin xsb
        \<and> js_le (coefficient_of_variation xsa) (coefficient_of_variation xsb) \<longrightarrow>
      \<not> js_lt (calculateConfidence cfg da) (calculateConfidence cfg db))
   \<and> (xsa \<noteq> [] \<and> length xsa = length xsb
        \<and> map (\<lambda>d. price (od_value d)) da = map Fin xsa
        \<and> map (\<lambda>d. price (od_value d)) db = map Fin xsb
        \<and> js_le (coefficient_of_variation xsa) (coefficient_of_variation xsb)
        \<and> js_div (Fin (real (length xsa))) (minSourcesRequired cfg) \<noteq> NaN \<longrightarrow>
      js_le (calculateConfidence cfg db) (calculateConfidence cfg da))
   \<and> \<not> js_lt (calculateConfidence cfg obs) (Fin 0)"
proof (intro conjI impI)
  assume "xs \<noteq> [] \<and> map (\<lambda>d. price (od_value d)) data = map Fin xs"
  then show "calculateConfidence cfg data =
        confidence_formula (Fin (real (length xs))) (minSourcesRequired cfg)
          (coefficient_of_variation xs)"
    using calculateConfidence_as_formula [of xs data cfg] by blast
next
  assume a: "xs \<noteq> [] \<and> map (\<lambda>d. price (od_value d)) data = map Fin xs
        \<and> minSourcesRequired cfg = Fin m \<and> m \<noteq> 0 \<and> population_mean xs \<noteq> 0"
  then have "calculateConfidence cfg data =
        confidence_formula (Fin (real (length xs))) (Fin m) (coefficient_of_variation xs)"
    using calculateConfidence_as_formula [of xs data cfg] by auto
  also have "\<dots> = Fin (max (min (real (length xs) / m) 1 * 100
                  - min (population_stddev xs / population_mean xs * 50) 30) 0)"
    using a by (intro confidence_formula_real) simp_all
  finally show "calculateConfidence cfg data =
        Fin (max (min (real (length xs) / m) 1 * 100
                  - min (population_stddev xs / population_mean xs * 50) 30) 0)" .
next
  assume a: "xsa \<noteq> [] \<and> length xsa = length xsb
        \<and> map (\<lambda>d. price (od_value d)) da = map Fin xsa
        \<and> map (\<lambda>d. price (od_value d)) db = map Fin xsb
        \<and> js_le (coefficient_of_variation xsa) (coefficient_of_variation xsb)"
  then have ne2: "xsb \<noteq> []" by auto
  have c1: "calculateConfidence cfg da =
      confidence_formula (Fin (real (length xsb))) (minSourcesRequired cfg)
        (coefficient_of_variation xsa)"
    using a calculateConfidence_as_formula [of xsa da cfg] by auto
  have c2: "calculateConfidence cfg db =
      confidence_formula (Fin (real (length xsb))) (minSourcesRequired cfg)
        (coefficient_of_variation xsb)"
    using a ne2 calculateConfidence_as_formula [of xsb db cfg] by auto
  from a have "js_le (coefficient_of_variation xsa) (coefficient_of_variation xsb)" by blast
  then show "\<not> js_lt (calculateConfidence cfg da) (calculateConfidence cfg db)"
    unfolding c1 c2 by (rule confidence_formula_no_increase)
next
  assume a: "xsa \<noteq> [] \<and> length xsa = length xsb
        \<and> map (\<lambda>d. price (od_value d)) da = map Fin xsa
        \<and> map (\<lambda>d. price (od_value d)) db = map Fin xsb
        \<and> js_le (coefficient_of_variation xsa) (coefficient_of_variation xsb)
        \<and> js_div (Fin (real (length xsa))) (minSourcesRequired cfg) \<noteq> NaN"
  then have ne2: "xsb \<noteq> []" by auto
  have c1: "calculateConfidence cfg da =
      confidence_formula (Fin (real (length xsb))) (minSourcesRequired cfg)
        (coefficient_of_variation xsa)"
    using a calculateConfidence_as_formula [of xsa da cfg] by auto
  have c2: "calculateConfidence cfg db =
      confidence_formula (Fin (real (length xsb))) (minSourcesRequired cfg)
        (coefficient_of_variation xsb)"
    using a ne2 calculateConfidence_as_formula [of xsb db cfg] by auto
  from a have le: "js_le (coefficient_of_variation xsa) (coefficient_of_variation xsb)"
    and num: "js_div (Fin (real (length xsb))) (minSourcesRequired cfg) \<noteq> NaN"
    by auto
  show "js_le (calculateConfidence cfg db) (calculateConfidence cfg da)"
    unfolding c1 c2 using le num by (rule confidence_formula_antitone) simp
next
  show "\<not> js_lt (calculateConfidence cfg obs) (Fin 0)"
    unfolding calculateConfidence_def Let_def by (rule Math_max_zero_not_negative)
qed

lemma sqrt_100: "sqrt 100 = 10"
  by (rule real_sqrt_unique) simp_all

lemma sqrt_2500: "sqrt 2500 = 50"
  by (rule real_sqrt_unique) simp_all

lemma spread_small:
  "population_mean [90, 110] = 100" "population_stddev [90, 110] = 10"
  "coefficient_of_variation [90, 110] = Fin (1 / 10)"
  by (simp_all add: population_mean_def population_stddev_def coefficient_of_variation_def sqrt_100)

lemma spread_large:
  "population_mean [50, 150] = 100" "population_stddev [50, 150] = 50"
  "coefficient_of_variation [50, 150] = Fin (1 / 2)"
  by (simp_all add: population_mean_def population_stddev_def coefficient_of_variation_def sqrt_2500)

lemma price_observed: "price (od_value (observed s p)) = Fin p"
  by (simp add: observed_def)

theorem calculateConfidence_formula_antitone_witness:
  "calculateConfidence default_config [observed ''coingecko'' 90, observed ''binance'' 110] = Fin 95
   \<and> calculateConfidence default_config [observed ''coingecko'' 50, observed ''binance'' 150] = Fin 75
   \<and> js_le (calculateConfidence default_config [observed ''coingecko'' 50, observed ''binance'' 150])
        (calculateConfidence default_config [observed ''coingecko'' 90, observed ''binance'' 110])
   \<and> \<not> js_lt (calculateConfidence default_config [observed ''coingecko'' 50, observed ''binance'' 150])
        (Fin 0)"
proof -
  have floor: "minSourcesRequired default_config = Fin 2"
    by (simp add: default_config_def)
  note small = calculateConfidence_formula_antitone
    [where cfg = default_config and xs = "[90, 110]" and m = 2
       and data = "[observed ''coingecko'' 90, observed ''binance'' 110]"
       and xsa = "[90, 110]" and xsb = "[50, 150]"
       and da = "[observed ''coingecko'' 90, observed ''binance'' 110]"
       and db = "[observed ''coingecko'' 50, observed ''binance'' 150]"
       and obs = "[observed ''coingecko'' 50, observed ''binance'' 150]"]
  note large = calculateConfidence_formula_antitone
    [where cfg = default_config and xs = "[50, 150]" and m = 2
       and data = "[observed ''coingecko'' 50, observed ''binance'' 150]"
       and xsa = "[50, 150]" and xsb = "[50, 150]"
       and da = "[observed ''coingecko'' 50, observed ''binance'' 150]"
       and db = "[observed ''coingecko'' 50, observed ''binance'' 150]"]
  have a: "calculateConfidence default_config
      [observed ''coingecko'' 90, observed ''binance'' 110] = Fin 95"
    using small [THEN conjunct2, THEN conjunct1]
    by (simp add: price_observed floor spread_small)
  have b: "calculateConfidence default_config
      [observed ''coingecko'' 50, observed ''binance'' 150] = Fin 75"
    using large [THEN conjunct2, THEN conjunct1]
    by (simp add: price_observed floor spread_large)
  have c: "js_le (calculateConfidence default_config
        [observed ''coingecko'' 50, observed ''binance'' 150])
      (calculateConfidence default_config [observed ''coingecko'' 90, observed ''binance'' 110])"
    using small [THEN conjunct2, THEN conjunct2, THEN conjunct2, THEN conjunct1]
    by (simp add: price_observed floor spread_small spread_large)
  have d: "\<not> js_lt (calculateConfidence default_config
        [observed ''coingecko'' 50, observed ''binance'' 150]) (Fin 0)"
    using small by blast
  from a b c d show ?thesis by blast
qed

section \<open>Outlier removal: results\<close>

lemma foldl_js_add_identical:
  "\<forall>v\<in>set vs. v = Fin p \<Longrightarrow> foldl js_add (Fin a) vs = Fin (a + real (length vs) * p)"
  by (induction vs arbitrary: a) (auto simp: algebra_simps)

lemma sum_numbers_identical:
  "\<forall>v\<in>set vs. v = Fin p \<Longrightarrow> sum_numbers vs = Fin (real (length vs) * p)"
  using foldl_js_add_identical [of vs p 0] by (simp add: sum_numbers_def)

lemma mean_identical:
  assumes "vs \<noteq> []" and "\<forall>v\<in>set vs. v = Fin p"
  shows "js_div (sum_numbers vs) (Fin (real (length vs))) = Fin p"
  using assms by (simp add: sum_numbers_identical)

lemma calculateStandardDeviation_identical:
  assumes "vs \<noteq> []" and "\<forall>v\<in>set vs. v = Fin p"
  shows "calculateStandardDeviation vs = Fin 0"
proof -
  let ?sq = "map (\<lambda>val. Math_pow2 (js_sub val (Fin p))) vs"
  have "\<forall>v\<in>set ?sq. v = Fin 0"
    using assms(2) by (auto simp: Math_pow2_def js_sub_def)
  then have "sum_numbers ?sq = Fin (real (length ?sq) * 0)"
    by (rule sum_numbers_identical)
  then have "js_div (sum_numbers ?sq) (Fin (real (length vs))) = Fin 0"
    using assms(1) by simp
  then show ?thesis
    unfolding calculateStandardDeviation_def Let_def mean_identical [OF assms] by simp
qed

text \<open>
  A group of more than two observations that all carry the same finite price: the
  deviation is 0, every z-score is \<open>0 / 0\<close>, and no observation passes the filter.
\<close>

lemma removeOutliers_identical:
  assumes "2 < length data" and "\<forall>d\<in>set data. price (od_value d) = Fin p"
  shows "removeOutliers cfg data = []"
proof -
  let ?prices = "map (\<lambda>d. price (od_value d)) data"
  have ne: "?prices \<noteq> []" using assms(1) by auto
  have same: "\<forall>v\<in>set ?prices. v = Fin p" using assms(2) by auto
  have mean: "js_div (sum_numbers ?prices) (Fin (real (length ?prices))) = Fin p"
    using ne same by (rule mean_identical)
  have dev: "calculateStandardDeviation ?prices = Fin 0"
    using ne same by (rule calculateStandardDeviation_identical)
  have "\<forall>d\<in>set data.
      \<not> js_le (Math_abs (js_div (js_sub (price (od_value d)) (Fin p)) (Fin 0))) (outlierThreshold cfg)"
    using assms(2) by (simp add: js_sub_def)
  then have "filter (\<lambda>d.
      js_le (Math_abs (js_div (js_sub (price (od_value d)) (Fin p)) (Fin 0))) (outlierThreshold cfg)) data = []"
    by (simp add: filter_empty_conv)
  then show ?thesis
    using assms(1) unfolding removeOutliers_def Let_def mean dev by simp
qed

text \<open>
  Claim C2, at the group of three observations that all report the price 100. The
  population standard deviation is 0, as the claim says. Outlier removal then drops
  every observation, whatever the threshold: the z-score \<open>|(100 - 100) / 0|\<close> is
  \<open>NaN\<close> and \<open>NaN <= threshold\<close> is false. The claim says that the cleaned group equals
  the input group.
\<close>

theorem removeOutliers_identical_prices_dropped:
  "calculateStandardDeviation [Fin 100, Fin 100, Fin 100] = Fin 0
   \<and> (\<forall>t. removeOutliers (default_config\<lparr>outlierThreshold := t\<rparr>)
          [observed ''coingecko'' 100, observed ''binance'' 100, observed ''coinmarketcap'' 100] = [])"
proof
  show "calculateStandardDeviation [Fin 100, Fin 100, Fin 100] = Fin 0"
    by (rule calculateStandardDeviation_identical [where p = 100]) simp_all
next
  show "\<forall>t. removeOutliers (default_config\<lparr>outlierThreshold := t\<rparr>)
          [observed ''coingecko'' 100, observed ''binance'' 100, observed ''coinmarketcap'' 100] = []"
  proof
    fix t
    show "removeOutliers (default_config\<lparr>outlierThreshold := t\<rparr>)
          [observed ''coingecko'' 100, observed ''binance'' 100, observed ''coinmarketcap'' 100] = []"
      by (rule removeOutliers_identical [where p = 100]) (simp_all add: observed_def)
  qed
qed

section \<open>validatePriceData: results\<close>

text \<open>What holds of every value that \<open>validatePriceData\<close> returns.\<close>

lemma validatePriceData_returned:
  assumes "validatePriceData name clock data = Inr pd"
  shows "\<not> js_le (price pd) (Fin 0)"
    and "clock \<noteq> 0 \<Longrightarrow> truthy (timestamp pd)"
    and "confidence pd = Some (if falsy_number (p_confidence data) then Fin 100
                               else to_number (p_confidence data))"
    and "source pd = name"
  using assms
  by (auto simp: validatePriceData_def Let_def truthy_def
      split: if_splits option.splits js_value.splits prod.splits
      elim: falsy_number.elims)

lemma validatePriceData_positive_or_NaN:
  assumes "validatePriceData name clock data = Inr pd"
  shows "js_gt (price pd) (Fin 0) \<or> price pd = NaN"
  using validatePriceData_returned(1) [OF assms]
  by (cases "price pd") (auto simp: js_gt_def)

lemma validatePriceData_zero_confidence:
  assumes "validatePriceData name clock data = Inr pd" and "p_confidence data = Some (Fin 0)"
  shows "confidence pd = Some (Fin 100)"
  using validatePriceData_returned(3) [OF assms(1)] assms(2) by (simp add: truthy_def)

text \<open>
  Claim C10, at the argument that \<open>BinanceFetcher.fetchPrice\<close> passes when the price
  string of the response does not parse (\<open>parseFloat\<close> gives \<open>NaN\<close>). \<open>NaN\<close> is of type
  number and \<open>NaN <= 0\<close> is false, so neither check throws: the function returns a
  \<open>PriceData\<close> whose price is \<open>NaN\<close>. The claim says that every returned value has a
  strictly positive price.
\<close>

theorem validatePriceData_returns_NaN_price:
  "validatePriceData ''binance'' 1700000000000
     \<lparr> p_base = Some ''BTC'', p_quote = Some ''USDT'', p_price = Num NaN,
       p_timestamp = Some (Fin 1700000000000), p_volume24h = Some (Fin 1000),
       p_change24h = Some (Fin 2), p_marketCap = None, p_confidence = Some (Fin 98) \<rparr>
   = Inr \<lparr> base = ''BTC'', quote = ''USDT'', price = NaN, timestamp = Fin 1700000000000,
           source = ''binance'', volume24h = Some (Fin 1000), change24h = Some (Fin 2),
           marketCap = None, confidence = Some (Fin 98) \<rparr>"
  by (simp add: validatePriceData_def truthy_def)

section \<open>The lifecycle: results\<close>

lemma performUpdate_succeeds:
  assumes "performUpdate_try config cfg io (lastPrices st) = (Inr tx, table')"
  shows "performUpdate config cfg io st =
     (Inr (), st\<lparr>lastPrices := table', totalUpdates := totalUpdates st + 1,
                 lastUpdateTime := now io\<rparr>)"
  using assms by (simp add: performUpdate_def)

lemma performUpdate_fails_below:
  assumes "performUpdate_try config cfg io (lastPrices st) = (Inl e, table')"
    and "int (errorCount st) + 1 < retryAttempts config"
  shows "performUpdate config cfg io st =
     (Inr (), st\<lparr>lastPrices := table', errorCount := errorCount st + 1\<rparr>)"
  using assms by (simp add: performUpdate_def Let_def)

lemma performUpdate_fails_trips:
  assumes "performUpdate_try config cfg io (lastPrices st) = (Inl e, table')"
    and "retryAttempts config \<le> int (errorCount st) + 1"
  shows "performUpdate config cfg io st =
     (Inl e, stop (st\<lparr>lastPrices := table', errorCount := errorCount st + 1\<rparr>))"
  using assms by (simp add: performUpdate_def Let_def)

lemma stop_not_running: "\<not> isRunning (stop st)"
  by (simp add: stop_def Let_def split: option.splits)

lemma stop_errorCount: "errorCount (stop st) = errorCount st"
  by (simp add: stop_def Let_def split: option.splits)

lemma stop_no_timer: "timers_consistent st \<Longrightarrow> pendingTimers (stop st) = {}"
  by (auto simp: stop_def Let_def timers_consistent_def split: option.splits)

lemma timers_consistent_initial: "timers_consistent initial_state"
  by (simp add: timers_consistent_def initial_state_def)

lemma timers_consistent_stop: "timers_consistent st \<Longrightarrow> timers_consistent (stop st)"
  by (auto simp: stop_def Let_def timers_consistent_def split: option.splits)

lemma timers_consistent_fields:
  "timers_consistent (st\<lparr>lastPrices := t, errorCount := n\<rparr>) = timers_consistent st"
  "timers_consistent (st\<lparr>lastPrices := t, totalUpdates := m, lastUpdateTime := u\<rparr>) = timers_consistent st"
  by (simp_all add: timers_consistent_def)

lemma timers_consistent_performUpdate:
  assumes "timers_consistent st"
  shows "timers_consistent (snd (performUpdate config cfg io st))"
proof (cases "performUpdate_try config cfg io (lastPrices st)")
  case (Pair r table')
  show ?thesis
  proof (cases r)
    case (Inr tx)
    with Pair assms show ?thesis
      by (simp add: performUpdate_succeeds timers_consistent_fields)
  next
    case (Inl e)
    show ?thesis
    proof (cases "retryAttempts config \<le> int (errorCount st) + 1")
      case True
      with Pair Inl assms show ?thesis
        by (simp add: performUpdate_fails_trips timers_consistent_stop timers_consistent_fields)
    next
      case False
      with Pair Inl assms show ?thesis
        by (simp add: performUpdate_fails_below timers_consistent_fields)
    qed
  qed
qed

lemma performUpdate_pending_subset:
  "pendingTimers (snd (performUpdate config cfg io st)) \<subseteq> pendingTimers st"
  by (auto simp: performUpdate_def Let_def stop_def split: prod.splits sum.splits option.splits if_splits)

lemma performUpdate_errorCount_mono:
  "errorCount st \<le> errorCount (snd (performUpdate config cfg io st))"
  by (auto simp: performUpdate_def Let_def stop_errorCount split: prod.splits sum.splits)

lemma scheduleUpdates_errorCount: "errorCount (scheduleUpdates st) = errorCount st"
  by (simp add: scheduleUpdates_def)

lemma start_errorCount_mono: "errorCount st \<le> errorCount (snd (start config cfg io st))"
proof -
  have "errorCount (st\<lparr>isRunning := True\<rparr>)
      \<le> errorCount (snd (performUpdate config cfg io (st\<lparr>isRunning := True\<rparr>)))"
    by (rule performUpdate_errorCount_mono)
  then show ?thesis
    by (auto simp: start_def scheduleUpdates_errorCount split: prod.splits sum.splits)
qed

lemma scheduledUpdate_errorCount_mono:
  "errorCount st \<le> errorCount (scheduledUpdate config cfg io h st)"
proof -
  have "errorCount (st\<lparr>pendingTimers := pendingTimers st - {h}\<rparr>)
      \<le> errorCount (snd (performUpdate config cfg io (st\<lparr>pendingTimers := pendingTimers st - {h}\<rparr>)))"
    by (rule performUpdate_errorCount_mono)
  then show ?thesis
    by (simp add: scheduledUpdate_def Let_def scheduleUpdates_errorCount)
qed

section \<open>Two concrete cycles\<close>

lemma default_config_fields:
  "supportedPairs default_config = [btc_usd]"
  "aggregationMethod default_config = Median"
  "outlierThreshold default_config = Fin 2"
  "minSourcesRequired default_config = Fin 2"
  "maxPriceAge default_config = Fin 300"
  "deviationThreshold default_config = Fin 1"
  by (simp_all add: default_config_def)

lemma fetch_sources_down: "fetchDataWithRetry default_oracle_config sources_down = Inr []"
  by (simp add: fetchDataWithRetry_def fetchDataWithRetry_loop.simps sources_down_def
      default_oracle_config_def)

lemma cycle_sources_down:
  "performUpdate_try default_oracle_config default_config sources_down table =
     (Inl (ValidationError ''No valid aggregated price data available''), table)"
  by (simp add: performUpdate_try_def fetch_sources_down validateData_def groupDataByPair_def
      processData_def)

lemma fetch_sources_agree:
  "fetchDataWithRetry default_oracle_config (sources_agree\<lparr>sendTransaction := send\<rparr>) =
     Inr [observed ''coingecko'' 100, observed ''binance'' 100]"
  by (simp add: fetchDataWithRetry_def fetchDataWithRetry_loop.simps sources_agree_def
      default_oracle_config_def)

lemma group_agree:
  "groupDataByPair [observed ''coingecko'' 100, observed ''binance'' 100] =
     [(''BTC/USD'', [observed ''coingecko'' 100, observed ''binance'' 100])]"
  by (simp add: groupDataByPair_def observed_def pairKey_of_def)

lemma find_btc_usd:
  "find (\<lambda>p. pairKey_of (tp_base p) (tp_quote p) = ''BTC/USD'') (supportedPairs default_config)
     = Some btc_usd"
  by (simp add: default_config_fields btc_usd_def pairKey_of_def)

lemma stddev_agree: "calculateStandardDeviation [Fin 100, Fin 100] = Fin 0"
  by (simp add: calculateStandardDeviation_def sum_numbers_def Math_pow2_def js_sub_def)

lemma validate_agree:
  "isValid (validateData default_config (Fin 1700000000500)
      [observed ''coingecko'' 100, observed ''binance'' 100])"
  unfolding validateData_def group_agree
  by (simp add: validate_group_def find_btc_usd Let_def validate_observation_def observed_def
      btc_usd_def js_gt_def default_config_fields calculateStandardDeviation_def sum_numbers_def
      Math_pow2_def js_sub_def pairKey_of_def)

lemma removeOutliers_two:
  "removeOutliers cfg [observed ''coingecko'' 100, observed ''binance'' 100] =
     [observed ''coingecko'' 100, observed ''binance'' 100]"
  by (simp add: removeOutliers_def)

lemma median_agree: "calculateMedian [Fin 100, Fin 100] = Fin 100"
  by (simp add: calculateMedian_def sort_by_difference_def js_gt_def js_sub_def at_index_def)

lemma confidence_agree:
  "calculateConfidence default_config [observed ''coingecko'' 100, observed ''binance'' 100] = Fin 100"
  by (simp add: calculateConfidence_def observed_def stddev_agree sum_numbers_def
      default_config_fields Math_min_def Math_max_def js_sub_def Let_def)

lemma aggregate_agree:
  "aggregatePrices default_config [observed ''coingecko'' 100, observed ''binance'' 100] = Inr agreed"
  unfolding aggregatePrices_def Let_def confidence_agree
  by (simp add: observed_def default_config_fields median_agree stddev_agree at_index_def
      Math_max_list_def Math_max_def unique_in_order_def agreed_def)

lemma process_agree:
  "processData default_config [observed ''coingecko'' 100, observed ''binance'' 100] table =
     (Inr agreed, table(''BTC/USD'' \<mapsto> agreed))"
  unfolding processData_def group_agree
  by (simp add: removeOutliers_two aggregate_agree default_config_fields btc_usd_def
      pairKey_of_def)

lemma shouldUpdate_same_price:
  assumes "\<not> js_le (deviationThreshold cfg) (Fin 0)"
  shows "\<not> shouldUpdate cfg p p"
  using assms
  by (cases p; cases "deviationThreshold cfg")
     (auto simp: shouldUpdate_def js_ge_def js_sub_def Let_def)

lemma submit_agree:
  "submitToBlockchain default_config (table(''BTC/USD'' \<mapsto> agreed)) send agreed = Inr ''skipped''"
  by (simp add: submitToBlockchain_def agreed_def pairKey_of_def shouldUpdate_same_price
      default_config_fields)

lemma cycle_sources_agree:
  "performUpdate_try default_oracle_config default_config
     (sources_agree\<lparr>sendTransaction := send\<rparr>) table =
     (Inr ''skipped'', table(''BTC/USD'' \<mapsto> agreed))"
  unfolding performUpdate_try_def fetch_sources_agree
  by (simp add: sources_agree_def validate_agree process_agree submit_agree)

section \<open>The failure counter and the circuit breaker\<close>

lemma cycle_sources_agree_plain:
  "performUpdate_try default_oracle_config default_config sources_agree table =
     (Inr ''skipped'', table(''BTC/USD'' \<mapsto> agreed))"
  using cycle_sources_agree [of "sendTransaction sources_agree" table] by simp

lemma retryAttempts_default: "retryAttempts default_oracle_config = 3"
  by (simp add: default_oracle_config_def)

lemma enabled_default: "enabled default_oracle_config"
  by (simp add: default_oracle_config_def)

text \<open>
  Claim C3, as the code has it. A cycle that succeeds leaves \<open>errorCount\<close> as it was, a
  cycle that fails adds one, and no operation of the controller lowers it: the counter
  counts the failed cycles since construction and is never reset.
\<close>

theorem errorCount_never_reset:
  "(performUpdate_try config cfg io (lastPrices st) = (Inr tx, table') \<longrightarrow>
      fst (performUpdate config cfg io st) = Inr ()
    \<and> errorCount (snd (performUpdate config cfg io st)) = errorCount st)
   \<and> (performUpdate_try config cfg io (lastPrices st) = (Inl e, table') \<longrightarrow>
      errorCount (snd (performUpdate config cfg io st)) = errorCount st + 1)
   \<and> errorCount st \<le> errorCount (snd (forceUpdate config cfg io st))
   \<and> errorCount st \<le> errorCount (snd (start config cfg io st))
   \<and> errorCount st \<le> errorCount (scheduledUpdate config cfg io h st)
   \<and> errorCount (stop st) = errorCount st"
proof (intro conjI impI)
  assume ok: "performUpdate_try config cfg io (lastPrices st) = (Inr tx, table')"
  show "fst (performUpdate config cfg io st) = Inr ()"
    by (simp add: performUpdate_succeeds [OF ok])
  show "errorCount (snd (performUpdate config cfg io st)) = errorCount st"
    by (simp add: performUpdate_succeeds [OF ok])
next
  assume "performUpdate_try config cfg io (lastPrices st) = (Inl e, table')"
  then show "errorCount (snd (performUpdate config cfg io st)) = errorCount st + 1"
    by (simp add: performUpdate_def Let_def stop_errorCount)
next
  show "errorCount st \<le> errorCount (snd (forceUpdate config cfg io st))"
    unfolding forceUpdate_def by (rule performUpdate_errorCount_mono)
next
  show "errorCount st \<le> errorCount (snd (start config cfg io st))"
    by (rule start_errorCount_mono)
next
  show "errorCount st \<le> errorCount (scheduledUpdate config cfg io h st)"
    by (rule scheduledUpdate_errorCount_mono)
next
  show "errorCount (stop st) = errorCount st"
    by (rule stop_errorCount)
qed

theorem errorCount_never_reset_witness:
  "fst (performUpdate default_oracle_config default_config sources_agree
          (initial_state\<lparr>errorCount := 2\<rparr>)) = Inr ()
   \<and> errorCount (snd (performUpdate default_oracle_config default_config sources_agree
          (initial_state\<lparr>errorCount := 2\<rparr>))) = 2
   \<and> errorCount (snd (performUpdate default_oracle_config default_config sources_down
          (initial_state\<lparr>errorCount := 2\<rparr>))) = 3"
  using errorCount_never_reset
    [where config = default_oracle_config and cfg = default_config and io = sources_agree
       and st = "initial_state\<lparr>errorCount := 2\<rparr>" and tx = "''skipped''"
       and table' = "(lastPrices initial_state)(''BTC/USD'' \<mapsto> agreed)"]
    errorCount_never_reset
    [where config = default_oracle_config and cfg = default_config and io = sources_down
       and st = "initial_state\<lparr>errorCount := 2\<rparr>"
       and e = "ValidationError ''No valid aggregated price data available''"
       and table' = "lastPrices initial_state"]
  by (simp add: cycle_sources_agree_plain cycle_sources_down)

text \<open>
  Claim C3 as stated fails: two cycles fail while every source is down, then a cycle
  succeeds, and the counter is still 2, not 0. The next failure is the third counted one:
  it reaches \<open>retryAttempts = 3\<close>, the error is thrown to the caller and the oracle is
  stopped, although only one failure followed the success.
\<close>

theorem errorCount_not_reset_by_success:
  "(let s1 = snd (forceUpdate default_oracle_config default_config sources_down initial_state);
        s2 = snd (forceUpdate default_oracle_config default_config sources_down s1);
        s3 = snd (forceUpdate default_oracle_config default_config sources_agree s2);
        r4 = forceUpdate default_oracle_config default_config sources_down s3
    in errorCount s2 = 2 \<and> totalUpdates s3 = 1 \<and> errorCount s3 = 2 \<and> errorCount s3 \<noteq> 0
       \<and> fst r4 = Inl (ValidationError ''No valid aggregated price data available'')
       \<and> errorCount (snd r4) = 3)"
  by (simp add: forceUpdate_def performUpdate_def cycle_sources_down cycle_sources_agree_plain
      retryAttempts_default initial_state_def stop_def Let_def)

section \<open>Every reachable state has consistent timers\<close>

lemma timers_consistent_fired:
  assumes "timers_consistent st" and "h \<in> pendingTimers st"
  shows "isRunning st" and "pendingTimers st - {h} = {}"
    and "timers_consistent (st\<lparr>pendingTimers := pendingTimers st - {h}\<rparr>)"
  using assms by (auto simp: timers_consistent_def split: option.splits)

lemma scheduleUpdates_stopped: "\<not> isRunning st \<Longrightarrow> scheduleUpdates st = st"
  by (simp add: scheduleUpdates_def)

lemma timers_consistent_scheduleUpdates:
  assumes "timers_consistent st" and "pendingTimers st = {}"
  shows "timers_consistent (scheduleUpdates st)"
  using assms by (simp add: scheduleUpdates_def timers_consistent_def)

lemma timers_consistent_start:
  assumes "timers_consistent st"
  shows "timers_consistent (snd (start config cfg io st))"
proof (cases "isRunning st \<or> \<not> enabled config")
  case True
  with assms show ?thesis by (auto simp: start_def)
next
  case False
  let ?st0 = "st\<lparr>isRunning := True\<rparr>"
  from False assms have none: "pendingTimers st = {}"
    by (auto simp: timers_consistent_def)
  then have inv0: "timers_consistent ?st0"
    by (simp add: timers_consistent_def)
  obtain r st1 where run: "performUpdate config cfg io ?st0 = (r, st1)"
    by (cases "performUpdate config cfg io ?st0")
  have inv1: "timers_consistent st1"
    using timers_consistent_performUpdate [OF inv0, of config cfg io] by (simp add: run)
  have "pendingTimers st1 \<subseteq> pendingTimers ?st0"
    using performUpdate_pending_subset [of config cfg io ?st0] by (simp add: run)
  then have none1: "pendingTimers st1 = {}" using none by simp
  show ?thesis
  proof (cases r)
    case (Inl e)
    with False run inv1 show ?thesis by (simp add: start_def)
  next
    case (Inr u)
    with False run have "snd (start config cfg io st) = scheduleUpdates st1"
      by (simp add: start_def)
    with inv1 none1 show ?thesis by (simp add: timers_consistent_scheduleUpdates)
  qed
qed

lemma timers_consistent_scheduledUpdate:
  assumes "timers_consistent st" and "h \<in> pendingTimers st"
  shows "timers_consistent (scheduledUpdate config cfg io h st)"
proof -
  let ?st0 = "st\<lparr>pendingTimers := pendingTimers st - {h}\<rparr>"
  have inv0: "timers_consistent ?st0" and none: "pendingTimers st - {h} = {}"
    using assms by (rule timers_consistent_fired)+
  have inv1: "timers_consistent (snd (performUpdate config cfg io ?st0))"
    using inv0 by (rule timers_consistent_performUpdate)
  have "pendingTimers (snd (performUpdate config cfg io ?st0)) \<subseteq> pendingTimers ?st0"
    by (rule performUpdate_pending_subset)
  moreover have "pendingTimers ?st0 = {}"
    using none by simp
  ultimately have "pendingTimers (snd (performUpdate config cfg io ?st0)) = {}"
    by blast
  with inv1 show ?thesis
    unfolding scheduledUpdate_def Let_def by (rule timers_consistent_scheduleUpdates)
qed

lemma reachable_timers_consistent: "reachable st \<Longrightarrow> timers_consistent st"
proof (induction rule: reachable.induct)
  case constructed
  show ?case by (rule timers_consistent_initial)
next
  case (started st config cfg io)
  then show ?case by (simp add: timers_consistent_start)
next
  case (stopped st)
  then show ?case by (simp add: timers_consistent_stop)
next
  case (forced st config cfg io)
  then show ?case by (simp add: forceUpdate_def timers_consistent_performUpdate)
next
  case (fired st h config cfg io)
  then show ?case by (simp add: timers_consistent_scheduledUpdate)
qed

text \<open>
  Claim C5. A cycle fails with the error \<open>e\<close>, in a state with consistent timers, as
  every reachable state is (\<open>reachable_timers_consistent\<close>). If the failure brings
  \<open>errorCount\<close> to \<open>retryAttempts\<close> or beyond, \<open>performUpdate\<close> throws \<open>e\<close> to its
  caller and leaves the oracle stopped with no timeout pending; when the cycle was the
  scheduled one, the callback ends in that state too, so no further scheduled cycle runs.
  If \<open>errorCount\<close> stays below \<open>retryAttempts\<close>, \<open>performUpdate\<close> returns normally, the
  oracle keeps its running flag and its timers, and the scheduled callback arms the next
  timeout.
\<close>

theorem performUpdate_circuit_breaker:
  assumes fails: "performUpdate_try config cfg io (lastPrices st) = (Inl e, table')"
    and inv: "timers_consistent st"
  shows "(retryAttempts config \<le> int (errorCount st) + 1 \<longrightarrow>
            fst (performUpdate config cfg io st) = Inl e
          \<and> \<not> isRunning (snd (performUpdate config cfg io st))
          \<and> pendingTimers (snd (performUpdate config cfg io st)) = {}
          \<and> (\<forall>h\<in>pendingTimers st.
                \<not> isRunning (scheduledUpdate config cfg io h st)
              \<and> pendingTimers (scheduledUpdate config cfg io h st) = {}))
       \<and> (int (errorCount st) + 1 < retryAttempts config \<longrightarrow>
            fst (performUpdate config cfg io st) = Inr ()
          \<and> isRunning (snd (performUpdate config cfg io st)) = isRunning st
          \<and> pendingTimers (snd (performUpdate config cfg io st)) = pendingTimers st
          \<and> (\<forall>h\<in>pendingTimers st.
                isRunning (scheduledUpdate config cfg io h st)
              \<and> pendingTimers (scheduledUpdate config cfg io h st) = {nextHandle st}))"
proof (intro conjI impI ballI)
  assume trip: "retryAttempts config \<le> int (errorCount st) + 1"
  let ?st1 = "st\<lparr>lastPrices := table', errorCount := errorCount st + 1\<rparr>"
  have run: "performUpdate config cfg io st = (Inl e, stop ?st1)"
    using fails trip by (rule performUpdate_fails_trips)
  have inv1: "timers_consistent ?st1"
    using inv by (simp add: timers_consistent_fields)
  show "fst (performUpdate config cfg io st) = Inl e"
    by (simp add: run)
  show "\<not> isRunning (snd (performUpdate config cfg io st))"
    by (simp add: run stop_not_running)
  show "pendingTimers (snd (performUpdate config cfg io st)) = {}"
    using inv1 by (simp add: run stop_no_timer)
  fix h assume h: "h \<in> pendingTimers st"
  let ?st0 = "st\<lparr>pendingTimers := pendingTimers st - {h}\<rparr>"
  let ?st2 = "?st0\<lparr>lastPrices := table', errorCount := errorCount ?st0 + 1\<rparr>"
  have inv0: "timers_consistent ?st0"
    using inv h by (rule timers_consistent_fired)
  have "performUpdate_try config cfg io (lastPrices ?st0) = (Inl e, table')"
    using fails by simp
  moreover have "retryAttempts config \<le> int (errorCount ?st0) + 1"
    using trip by simp
  ultimately have run0: "performUpdate config cfg io ?st0 = (Inl e, stop ?st2)"
    by (rule performUpdate_fails_trips)
  have inv2: "timers_consistent ?st2"
    using inv0 by (simp only: timers_consistent_fields)
  have after: "scheduledUpdate config cfg io h st = stop ?st2"
    unfolding scheduledUpdate_def Let_def run0
    by (simp add: scheduleUpdates_stopped stop_not_running)
  show "\<not> isRunning (scheduledUpdate config cfg io h st)"
    unfolding after by (rule stop_not_running)
  show "pendingTimers (scheduledUpdate config cfg io h st) = {}"
    unfolding after using inv2 by (rule stop_no_timer)
next
  assume below: "int (errorCount st) + 1 < retryAttempts config"
  let ?st1 = "st\<lparr>lastPrices := table', errorCount := errorCount st + 1\<rparr>"
  have run: "performUpdate config cfg io st = (Inr (), ?st1)"
    using fails below by (rule performUpdate_fails_below)
  show "fst (performUpdate config cfg io st) = Inr ()"
    by (simp add: run)
  show "isRunning (snd (performUpdate config cfg io st)) = isRunning st"
    by (simp add: run)
  show "pendingTimers (snd (performUpdate config cfg io st)) = pendingTimers st"
    by (simp add: run)
  fix h assume h: "h \<in> pendingTimers st"
  let ?st0 = "st\<lparr>pendingTimers := pendingTimers st - {h}\<rparr>"
  let ?st2 = "?st0\<lparr>lastPrices := table', errorCount := errorCount ?st0 + 1\<rparr>"
  have running: "isRunning st" and none: "pendingTimers st - {h} = {}"
    using inv h by (rule timers_consistent_fired)+
  have "performUpdate_try config cfg io (lastPrices ?st0) = (Inl e, table')"
    using fails by simp
  moreover have "int (errorCount ?st0) + 1 < retryAttempts config"
    using below by simp
  ultimately have run0: "performUpdate config cfg io ?st0 = (Inr (), ?st2)"
    by (rule performUpdate_fails_below)
  have after: "scheduledUpdate config cfg io h st = scheduleUpdates ?st2"
    unfolding scheduledUpdate_def Let_def run0 by simp
  show "isRunning (scheduledUpdate config cfg io h st)"
    unfolding after using running by (simp add: scheduleUpdates_def)
  show "pendingTimers (scheduledUpdate config cfg io h st) = {nextHandle st}"
  proof -
    have "pendingTimers (scheduleUpdates ?st2) = insert (nextHandle st) (pendingTimers st - {h})"
      using running by (simp add: scheduleUpdates_def)
    then show ?thesis unfolding after none by simp
  qed
qed

theorem performUpdate_circuit_breaker_witness:
  "(let st = initial_state\<lparr>isRunning := True, updateTimer := Some 0, pendingTimers := {0},
                           nextHandle := 1, errorCount := 2\<rparr>
    in fst (performUpdate default_oracle_config default_config sources_down st)
         = Inl (ValidationError ''No valid aggregated price data available'')
     \<and> \<not> isRunning (snd (performUpdate default_oracle_config default_config sources_down st))
     \<and> pendingTimers (snd (performUpdate default_oracle_config default_config sources_down st)) = {}
     \<and> \<not> isRunning (scheduledUpdate default_oracle_config default_config sources_down 0 st)
     \<and> pendingTimers (scheduledUpdate default_oracle_config default_config sources_down 0 st) = {})
   \<and> (let st = initial_state\<lparr>isRunning := True, updateTimer := Some 0, pendingTimers := {0},
                           nextHandle := 1\<rparr>
    in fst (performUpdate default_oracle_config default_config sources_down st) = Inr ()
     \<and> isRunning (snd (performUpdate default_oracle_config default_config sources_down st))
     \<and> pendingTimers (snd (performUpdate default_oracle_config default_config sources_down st)) = {0}
     \<and> isRunning (scheduledUpdate default_oracle_config default_config sources_down 0 st)
     \<and> pendingTimers (scheduledUpdate default_oracle_config default_config sources_down 0 st) = {1})"
  using performUpdate_circuit_breaker
    [where config = default_oracle_config and cfg = default_config and io = sources_down
       and st = "initial_state\<lparr>isRunning := True, updateTimer := Some 0, pendingTimers := {0},
                           nextHandle := 1, errorCount := 2\<rparr>"
       and e = "ValidationError ''No valid aggregated price data available''"
       and table' = "lastPrices initial_state"]
    performUpdate_circuit_breaker
    [where config = default_oracle_config and cfg = default_config and io = sources_down
       and st = "initial_state\<lparr>isRunning := True, updateTimer := Some 0, pendingTimers := {0},
                           nextHandle := 1\<rparr>"
       and e = "ValidationError ''No valid aggregated price data available''"
       and table' = "lastPrices initial_state"]
  by (simp add: cycle_sources_down retryAttempts_default timers_consistent_def initial_state_def
      Let_def)

section \<open>start\<close>

text \<open>
  Claim C6, as the code has it. When the oracle is already running, \<open>start\<close> returns
  normally and changes nothing. Otherwise, when the oracle is enabled, it runs one cycle at
  once. If that cycle fails and thereby brings \<open>errorCount\<close> to \<open>retryAttempts\<close>, the
  error reaches the caller of \<open>start\<close> and the oracle is left stopped with no timeout
  armed. If the cycle fails with \<open>errorCount\<close> still below \<open>retryAttempts\<close>,
  \<open>performUpdate\<close> has swallowed the error: \<open>start\<close> returns normally, the oracle is
  running and the recurring timeout is armed. If the cycle succeeds, the oracle is running
  with the timeout armed.
\<close>

theorem start_initial_cycle:
  "(isRunning st \<longrightarrow> start config cfg io st = (Inr (), st))
   \<and> (\<not> isRunning st \<and> enabled config \<and> timers_consistent st
        \<and> performUpdate_try config cfg io (lastPrices st) = (Inl e, table')
        \<and> retryAttempts config \<le> int (errorCount st) + 1 \<longrightarrow>
          fst (start config cfg io st) = Inl e
        \<and> \<not> isRunning (snd (start config cfg io st))
        \<and> pendingTimers (snd (start config cfg io st)) = {})
   \<and> (\<not> isRunning st \<and> enabled config
        \<and> performUpdate_try config cfg io (lastPrices st) = (Inl e, table')
        \<and> int (errorCount st) + 1 < retryAttempts config \<longrightarrow>
          fst (start config cfg io st) = Inr ()
        \<and> isRunning (snd (start config cfg io st))
        \<and> updateTimer (snd (start config cfg io st)) = Some (nextHandle st)
        \<and> nextHandle st \<in> pendingTimers (snd (start config cfg io st)))
   \<and> (\<not> isRunning st \<and> enabled config
        \<and> performUpdate_try config cfg io (lastPrices st) = (Inr tx, table') \<longrightarrow>
          fst (start config cfg io st) = Inr ()
        \<and> isRunning (snd (start config cfg io st))
        \<and> updateTimer (snd (start config cfg io st)) = Some (nextHandle st)
        \<and> nextHandle st \<in> pendingTimers (snd (start config cfg io st))
        \<and> totalUpdates (snd (start config cfg io st)) = totalUpdates st + 1)"
proof (intro conjI)
  show "isRunning st \<longrightarrow> start config cfg io st = (Inr (), st)"
    by (simp add: start_def)
next
  let ?st0 = "st\<lparr>isRunning := True\<rparr>"
  show "\<not> isRunning st \<and> enabled config \<and> timers_consistent st
        \<and> performUpdate_try config cfg io (lastPrices st) = (Inl e, table')
        \<and> retryAttempts config \<le> int (errorCount st) + 1 \<longrightarrow>
          fst (start config cfg io st) = Inl e
        \<and> \<not> isRunning (snd (start config cfg io st))
        \<and> pendingTimers (snd (start config cfg io st)) = {}"
  proof
    assume a: "\<not> isRunning st \<and> enabled config \<and> timers_consistent st
        \<and> performUpdate_try config cfg io (lastPrices st) = (Inl e, table')
        \<and> retryAttempts config \<le> int (errorCount st) + 1"
    then have "performUpdate_try config cfg io (lastPrices ?st0) = (Inl e, table')"
      and "retryAttempts config \<le> int (errorCount ?st0) + 1"
      by simp_all
    then have run: "performUpdate config cfg io ?st0 =
        (Inl e, stop (?st0\<lparr>lastPrices := table', errorCount := errorCount ?st0 + 1\<rparr>))"
      by (rule performUpdate_fails_trips)
    have "pendingTimers st = {}"
      using a by (auto simp: timers_consistent_def)
    then have none: "pendingTimers (stop (?st0\<lparr>lastPrices := table',
        errorCount := errorCount ?st0 + 1\<rparr>)) = {}"
      by (simp add: stop_def Let_def split: option.splits)
    from a have st: "start config cfg io st =
        (Inl e, stop (?st0\<lparr>lastPrices := table', errorCount := errorCount ?st0 + 1\<rparr>))"
      unfolding start_def run by simp
    show "fst (start config cfg io st) = Inl e
        \<and> \<not> isRunning (snd (start config cfg io st))
        \<and> pendingTimers (snd (start config cfg io st)) = {}"
      unfolding st using none by (simp add: stop_not_running)
  qed
next
  let ?st0 = "st\<lparr>isRunning := True\<rparr>"
  show "\<not> isRunning st \<and> enabled config
        \<and> performUpdate_try config cfg io (lastPrices st) = (Inl e, table')
        \<and> int (errorCount st) + 1 < retryAttempts config \<longrightarrow>
          fst (start config cfg io st) = Inr ()
        \<and> isRunning (snd (start config cfg io st))
        \<and> updateTimer (snd (start config cfg io st)) = Some (nextHandle st)
        \<and> nextHandle st \<in> pendingTimers (snd (start config cfg io st))"
  proof
    assume a: "\<not> isRunning st \<and> enabled config
        \<and> performUpdate_try config cfg io (lastPrices st) = (Inl e, table')
        \<and> int (errorCount st) + 1 < retryAttempts config"
    then have "performUpdate_try config cfg io (lastPrices ?st0) = (Inl e, table')"
      and "int (errorCount ?st0) + 1 < retryAttempts config"
      by simp_all
    then have run: "performUpdate config cfg io ?st0 =
        (Inr (), ?st0\<lparr>lastPrices := table', errorCount := errorCount ?st0 + 1\<rparr>)"
      by (rule performUpdate_fails_below)
    from a have st: "start config cfg io st =
        (Inr (), scheduleUpdates (?st0\<lparr>lastPrices := table', errorCount := errorCount ?st0 + 1\<rparr>))"
      unfolding start_def run by simp
    show "fst (start config cfg io st) = Inr ()
        \<and> isRunning (snd (start config cfg io st))
        \<and> updateTimer (snd (start config cfg io st)) = Some (nextHandle st)
        \<and> nextHandle st \<in> pendingTimers (snd (start config cfg io st))"
      unfolding st by (simp add: scheduleUpdates_def)
  qed
next
  let ?st0 = "st\<lparr>isRunning := True\<rparr>"
  show "\<not> isRunning st \<and> enabled config
        \<and> performUpdate_try config cfg io (lastPrices st) = (Inr tx, table') \<longrightarrow>
          fst (start config cfg io st) = Inr ()
        \<and> isRunning (snd (start config cfg io st))
        \<and> updateTimer (snd (start config cfg io st)) = Some (nextHandle st)
        \<and> nextHandle st \<in> pendingTimers (snd (start config cfg io st))
        \<and> totalUpdates (snd (start config cfg io st)) = totalUpdates st + 1"
  proof
    assume a: "\<not> isRunning st \<and> enabled config
        \<and> performUpdate_try config cfg io (lastPrices st) = (Inr tx, table')"
    then have "performUpdate_try config cfg io (lastPrices ?st0) = (Inr tx, table')"
      by simp
    then have run: "performUpdate config cfg io ?st0 =
        (Inr (), ?st0\<lparr>lastPrices := table', totalUpdates := totalUpdates ?st0 + 1,
                     lastUpdateTime := now io\<rparr>)"
      by (rule performUpdate_succeeds)
    from a have st: "start config cfg io st =
        (Inr (), scheduleUpdates (?st0\<lparr>lastPrices := table', totalUpdates := totalUpdates ?st0 + 1,
                     lastUpdateTime := now io\<rparr>))"
      unfolding start_def run by simp
    show "fst (start config cfg io st) = Inr ()
        \<and> isRunning (snd (start config cfg io st))
        \<and> updateTimer (snd (start config cfg io st)) = Some (nextHandle st)
        \<and> nextHandle st \<in> pendingTimers (snd (start config cfg io st))
        \<and> totalUpdates (snd (start config cfg io st)) = totalUpdates st + 1"
      unfolding st by (simp add: scheduleUpdates_def)
  qed
qed

theorem start_initial_cycle_witness:
  "start default_oracle_config default_config sources_down
       (initial_state\<lparr>isRunning := True, updateTimer := Some 0, pendingTimers := {0}, nextHandle := 1\<rparr>)
     = (Inr (), initial_state\<lparr>isRunning := True, updateTimer := Some 0, pendingTimers := {0},
                              nextHandle := 1\<rparr>)
   \<and> fst (start default_oracle_config default_config sources_down (initial_state\<lparr>errorCount := 2\<rparr>))
       = Inl (ValidationError ''No valid aggregated price data available'')
   \<and> \<not> isRunning (snd (start default_oracle_config default_config sources_down
                          (initial_state\<lparr>errorCount := 2\<rparr>)))
   \<and> pendingTimers (snd (start default_oracle_config default_config sources_down
                          (initial_state\<lparr>errorCount := 2\<rparr>))) = {}
   \<and> fst (start default_oracle_config default_config sources_down initial_state) = Inr ()
   \<and> isRunning (snd (start default_oracle_config default_config sources_down initial_state))
   \<and> 0 \<in> pendingTimers (snd (start default_oracle_config default_config sources_down initial_state))
   \<and> totalUpdates (snd (start default_oracle_config default_config sources_agree initial_state)) = 1"
  using start_initial_cycle
    [where config = default_oracle_config and cfg = default_config and io = sources_down
       and st = "initial_state\<lparr>isRunning := True, updateTimer := Some 0, pendingTimers := {0},
                              nextHandle := 1\<rparr>"]
    start_initial_cycle
    [where config = default_oracle_config and cfg = default_config and io = sources_down
       and st = "initial_state\<lparr>errorCount := 2\<rparr>"
       and e = "ValidationError ''No valid aggregated price data available''"
       and table' = "lastPrices initial_state"]
    start_initial_cycle
    [where config = default_oracle_config and cfg = default_config and io = sources_down
       and st = "initial_state"
       and e = "ValidationError ''No valid aggregated price data available''"
       and table' = "lastPrices initial_state"]
    start_initial_cycle
    [where config = default_oracle_config and cfg = default_config and io = sources_agree
       and st = "initial_state" and tx = "''skipped''"
       and table' = "(lastPrices initial_state)(''BTC/USD'' \<mapsto> agreed)"]
  by (simp add: cycle_sources_down cycle_sources_agree_plain retryAttempts_default enabled_default
      timers_consistent_def initial_state_def)

text \<open>
  Claim C6 as stated fails: the oracle is started for the first time while every source is
  down. The initial cycle fails (no aggregated price), \<open>errorCount\<close> becomes 1, which is
  below \<open>retryAttempts = 3\<close>, and \<open>start\<close> returns normally with the oracle running and
  the timeout 0 pending. The claim says that the oracle remains stopped and that the error
  reaches the caller of \<open>start\<close>.
\<close>

theorem start_swallows_initial_failure:
  "fst (performUpdate_try default_oracle_config default_config sources_down
          (lastPrices initial_state))
     = Inl (ValidationError ''No valid aggregated price data available'')
   \<and> fst (start default_oracle_config default_config sources_down initial_state) = Inr ()
   \<and> isRunning (snd (start default_oracle_config default_config sources_down initial_state))
   \<and> errorCount (snd (start default_oracle_config default_config sources_down initial_state)) = 1
   \<and> pendingTimers (snd (start default_oracle_config default_config sources_down initial_state)) = {0}"
  by (simp add: start_def performUpdate_def cycle_sources_down retryAttempts_default
      enabled_default initial_state_def scheduleUpdates_def Let_def)

section \<open>The processing loop: results\<close>

lemma set_removeOutliers: "set (removeOutliers cfg ds) \<subseteq> set ds"
  by (auto simp: removeOutliers_def Let_def)

lemma aggregatePrices_empty: "aggregatePrices cfg [] = Inl TypeError"
  by (simp add: aggregatePrices_def Let_def at_index_def)

lemma aggregatePrices_nonempty:
  assumes "ds \<noteq> []"
  shows "\<exists>a. aggregatePrices cfg ds = Inr a \<and> sourceCount a = length ds
           \<and> agg_key a = data_key (hd ds)"
proof -
  from assms obtain d rest where ds: "ds = d # rest" by (cases ds) auto
  then have "at_index ds 0 = Some d" by (simp add: at_index_def)
  then show ?thesis
    unfolding aggregatePrices_def Let_def
    by (simp add: agg_key_def data_key_def ds)
qed

lemma aggregatePrices_Inr:
  assumes "aggregatePrices cfg ds = Inr a"
  shows "ds \<noteq> []" and "sourceCount a = length ds" and "agg_key a = data_key (hd ds)"
proof -
  show ne: "ds \<noteq> []" using assms by (auto simp: aggregatePrices_empty)
  from aggregatePrices_nonempty [OF ne, of cfg] assms
  show "sourceCount a = length ds" and "agg_key a = data_key (hd ds)" by auto
qed

lemma processData_loop_step:
  "processData_loop cfg ((k, ds) # rest) acc lp =
     (if \<not> supported cfg k \<or> ds = [] \<or> below_floor cfg ds
      then processData_loop cfg rest acc lp
      else case aggregatePrices cfg (removeOutliers cfg ds) of
             Inl e \<Rightarrow> (Inl e, lp)
           | Inr a \<Rightarrow> processData_loop cfg rest (acc @ [a]) (lp(k \<mapsto> a)))"
  by (simp add: supported_def below_floor_def Let_def split: option.splits)

text \<open>Every result of the loop has at least \<open>minSourcesRequired\<close> sources behind it.\<close>

lemma processData_loop_quorum:
  assumes "processData_loop cfg gs acc lp = (Inr results, lp')"
    and "\<forall>a\<in>set acc. \<not> js_lt (Fin (real (sourceCount a))) (minSourcesRequired cfg)"
  shows "\<forall>a\<in>set results. \<not> js_lt (Fin (real (sourceCount a))) (minSourcesRequired cfg)"
  using assms
proof (induction gs arbitrary: acc lp)
  case Nil
  then show ?case by simp
next
  case (Cons g gs)
  obtain k ds where g: "g = (k, ds)" by (cases g)
  show ?case
  proof (cases "\<not> supported cfg k \<or> ds = [] \<or> below_floor cfg ds")
    case True
    with Cons.prems(1) have "processData_loop cfg gs acc lp = (Inr results, lp')"
      unfolding g processData_loop_step by simp
    then show ?thesis using Cons.prems(2) by (rule Cons.IH)
  next
    case False
    show ?thesis
    proof (cases "aggregatePrices cfg (removeOutliers cfg ds)")
      case (Inl e)
      with False Cons.prems(1) show ?thesis
        unfolding g processData_loop_step by simp
    next
      case (Inr a)
      with False Cons.prems(1)
      have run: "processData_loop cfg gs (acc @ [a]) (lp(k \<mapsto> a)) = (Inr results, lp')"
        unfolding g processData_loop_step by simp
      have "sourceCount a = length (removeOutliers cfg ds)"
        using Inr by (rule aggregatePrices_Inr)
      with False have "\<not> js_lt (Fin (real (sourceCount a))) (minSourcesRequired cfg)"
        by (simp add: below_floor_def)
      with Cons.prems(2)
      have "\<forall>b\<in>set (acc @ [a]). \<not> js_lt (Fin (real (sourceCount b))) (minSourcesRequired cfg)"
        by simp
      with run show ?thesis by (rule Cons.IH)
    qed
  qed
qed

text \<open>When every group is skipped the loop adds nothing and writes nothing.\<close>

lemma processData_loop_all_skipped:
  assumes "\<forall>(k, ds)\<in>set gs. \<not> supported cfg k \<or> below_floor cfg ds"
  shows "processData_loop cfg gs acc lp = (Inr acc, lp)"
  using assms
proof (induction gs)
  case Nil
  then show ?case by simp
next
  case (Cons g gs)
  obtain k ds where g: "g = (k, ds)" by (cases g)
  from Cons.prems have "\<not> supported cfg k \<or> below_floor cfg ds"
    and rest: "\<forall>(k, ds)\<in>set gs. \<not> supported cfg k \<or> below_floor cfg ds"
    by (simp_all add: g)
  then have "processData_loop cfg (g # gs) acc lp = processData_loop cfg gs acc lp"
    unfolding g processData_loop_step by auto
  with Cons.IH [OF rest] show ?case by simp
qed

text \<open>
  Under a positive floor no group reaches \<open>aggregatePrices\<close> empty, so the loop does not
  throw, and it adds a result as soon as one supported group is not below the floor.
\<close>

lemma positive_floor_nonempty:
  assumes "js_lt (Fin 0) (minSourcesRequired cfg)" and "\<not> below_floor cfg ds"
  shows "removeOutliers cfg ds \<noteq> []"
  using assms by (auto simp: below_floor_def)

lemma processData_loop_returns:
  assumes "js_lt (Fin 0) (minSourcesRequired cfg)"
  shows "\<exists>new lp'. processData_loop cfg gs acc lp = (Inr (acc @ new), lp')
           \<and> ((\<exists>(k, ds)\<in>set gs. supported cfg k \<and> \<not> below_floor cfg ds) \<longrightarrow> new \<noteq> [])"
proof (induction gs arbitrary: acc lp)
  case Nil
  show ?case by simp
next
  case (Cons g gs)
  obtain k ds where g: "g = (k, ds)" by (cases g)
  show ?case
  proof (cases "\<not> supported cfg k \<or> below_floor cfg ds")
    case True
    then have step: "processData_loop cfg (g # gs) acc lp = processData_loop cfg gs acc lp"
      unfolding g processData_loop_step by auto
    from Cons.IH [of acc lp] obtain new lp' where
      "processData_loop cfg gs acc lp = (Inr (acc @ new), lp')"
      "(\<exists>(k, ds)\<in>set gs. supported cfg k \<and> \<not> below_floor cfg ds) \<longrightarrow> new \<noteq> []"
      by blast
    with True step show ?thesis unfolding g by auto
  next
    case False
    then have sup: "supported cfg k" and floor: "\<not> below_floor cfg ds" by simp_all
    have cleaned: "removeOutliers cfg ds \<noteq> []"
      using assms floor by (rule positive_floor_nonempty)
    then have "ds \<noteq> []" using set_removeOutliers [of cfg ds] by auto
    from aggregatePrices_nonempty [OF cleaned, of cfg] obtain a where
      a: "aggregatePrices cfg (removeOutliers cfg ds) = Inr a" by blast
    with sup floor \<open>ds \<noteq> []\<close>
    have step: "processData_loop cfg (g # gs) acc lp =
        processData_loop cfg gs (acc @ [a]) (lp(k \<mapsto> a))"
      unfolding g processData_loop_step by simp
    from Cons.IH [of "acc @ [a]" "lp(k \<mapsto> a)"] obtain new lp' where
      "processData_loop cfg gs (acc @ [a]) (lp(k \<mapsto> a)) = (Inr ((acc @ [a]) @ new), lp')"
      by blast
    with step have "processData_loop cfg (g # gs) acc lp = (Inr (acc @ (a # new)), lp')"
      by simp
    then show ?thesis by blast
  qed
qed

section \<open>A cycle whose only pair falls below the floor\<close>

lemma strict_config_fields:
  "supportedPairs strict_config = [btc_usd]"
  "outlierThreshold strict_config = Fin (3 / 2)"
  "minSourcesRequired strict_config = Fin 5"
  "maxPriceAge strict_config = Fin 300"
  by (simp_all add: strict_config_def default_config_def)

lemma sqrt_400: "sqrt 400 = 20"
  by (rule real_sqrt_unique) simp_all

lemma prices_four_and_one:
  "map (\<lambda>d. price (od_value d)) four_and_one = [Fin 100, Fin 100, Fin 100, Fin 100, Fin 150]"
  by (simp add: four_and_one_def observed_def)

lemma mean_four_and_one:
  "js_div (sum_numbers [Fin 100, Fin 100, Fin 100, Fin 100, Fin 150]) (Fin (real (length [Fin 100, Fin 100, Fin 100, Fin 100, Fin 150]))) = Fin 110"
  by (simp add: sum_numbers_def)

lemma stddev_four_and_one:
  "calculateStandardDeviation [Fin 100, Fin 100, Fin 100, Fin 100, Fin 150] = Fin 20"
  by (simp add: calculateStandardDeviation_def sum_numbers_def Math_pow2_def js_sub_def sqrt_400)

lemma removeOutliers_four_and_one:
  "removeOutliers strict_config four_and_one =
     [observed ''coingecko'' 100, observed ''binance'' 100, observed ''coinmarketcap'' 100,
      observed ''kraken'' 100]"
proof -
  have len: "\<not> length four_and_one \<le> 2" by (simp add: four_and_one_def)
  show ?thesis
    unfolding removeOutliers_def Let_def prices_four_and_one mean_four_and_one stddev_four_and_one
    using len
    by (simp add: four_and_one_def observed_def strict_config_fields js_sub_def)
qed

lemma group_four_and_one: "groupDataByPair four_and_one = [(''BTC/USD'', four_and_one)]"
  by (simp add: groupDataByPair_def four_and_one_def observed_def pairKey_of_def)

lemma supported_btc_usd: "supported strict_config ''BTC/USD''" "supported default_config ''BTC/USD''"
  by (simp_all add: supported_def strict_config_fields default_config_fields btc_usd_def pairKey_of_def)

lemma below_floor_four_and_one: "below_floor strict_config four_and_one"
  by (simp add: below_floor_def removeOutliers_four_and_one strict_config_fields)

lemma find_btc_usd_strict:
  "find (\<lambda>p. pairKey_of (tp_base p) (tp_quote p) = ''BTC/USD'') (supportedPairs strict_config)
     = Some btc_usd"
  by (simp add: strict_config_fields btc_usd_def pairKey_of_def)

lemma length_four_and_one: "length four_and_one = 5"
  by (simp add: four_and_one_def)

lemma validate_four_and_one:
  "isValid (validateData strict_config (Fin 1700000000500) four_and_one)"
proof -
  have obs: "foldl (validate_observation strict_config (Fin 1700000000500) ''BTC/USD'' btc_usd)
      ([], []) four_and_one = ([], [])"
    by (simp add: four_and_one_def validate_observation_def observed_def btc_usd_def js_gt_def
        js_sub_def strict_config_fields Let_def)
  have "fst (validate_group strict_config (Fin 1700000000500) ([], []) (''BTC/USD'', four_and_one)) = []"
    by (simp add: validate_group_def find_btc_usd_strict obs prices_four_and_one
        stddev_four_and_one length_four_and_one strict_config_fields(2-4) Let_def)
  then show ?thesis
    unfolding validateData_def group_four_and_one by (simp add: Let_def)
qed

lemma fetch_one_outlier: "fetchDataWithRetry default_oracle_config one_outlier = Inr four_and_one"
  by (simp add: fetchDataWithRetry_def fetchDataWithRetry_loop.simps one_outlier_def
      default_oracle_config_def)

section \<open>The floor on sources: results\<close>

lemma processData_all_skipped:
  assumes "\<forall>(k, ds)\<in>set (groupDataByPair data). \<not> supported cfg k \<or> below_floor cfg ds"
  shows "processData cfg data table =
     (Inl (ValidationError ''No valid aggregated price data available''), table)"
  unfolding processData_def processData_loop_all_skipped [OF assms] by simp

lemma processData_quorum:
  assumes "processData cfg data table = (Inr agg, table')"
  shows "\<not> js_lt (Fin (real (sourceCount agg))) (minSourcesRequired cfg)"
proof -
  obtain r lp' where run: "processData_loop cfg (groupDataByPair data) [] table = (r, lp')"
    by (cases "processData_loop cfg (groupDataByPair data) [] table")
  with assms obtain rest where r: "r = Inr (agg # rest)"
    by (auto simp: processData_def split: sum.splits list.splits)
  have "\<forall>a\<in>set (agg # rest). \<not> js_lt (Fin (real (sourceCount a))) (minSourcesRequired cfg)"
    using run [unfolded r] by (rule processData_loop_quorum) simp
  then show ?thesis by simp
qed

lemma processData_returns:
  assumes "js_lt (Fin 0) (minSourcesRequired cfg)"
    and "\<exists>(k, ds)\<in>set (groupDataByPair data). supported cfg k \<and> \<not> below_floor cfg ds"
  shows "\<exists>agg table'. processData cfg data table = (Inr agg, table')"
proof -
  from processData_loop_returns [OF assms(1), of "groupDataByPair data" "[]" table] assms(2)
  obtain new lp' where "processData_loop cfg (groupDataByPair data) [] table = (Inr new, lp')"
    and "new \<noteq> []"
    by auto
  then show ?thesis
    by (cases new) (auto simp: processData_def)
qed

lemma performUpdate_all_skipped:
  assumes "fetchDataWithRetry config io = Inr data"
    and "isValid (validateData cfg (Fin (of_int (now io))) data)"
    and "\<forall>(k, ds)\<in>set (groupDataByPair data). \<not> supported cfg k \<or> below_floor cfg ds"
  shows "performUpdate_try config cfg io table =
     (Inl (ValidationError ''No valid aggregated price data available''), table)"
  using assms(1,2) processData_all_skipped [OF assms(3), of table]
  by (simp add: performUpdate_try_def Let_def)

text \<open>
  Claim C4, as the code has it. An aggregated observation that \<open>processData\<close> returns has
  a source count that is not below \<open>minSourcesRequired\<close>. A group that is below the floor
  after outlier removal adds nothing: the loop goes on with the other groups. Under a
  positive floor \<open>processData\<close> returns an aggregated observation as soon as one supported
  pair is not below the floor. When every pair of the cycle is unsupported or below the
  floor, \<open>processData\<close> throws the \<open>ValidationError\<close> "No valid aggregated price data
  available", and \<open>performUpdate\<close> counts the cycle as failed.
\<close>

theorem processData_floor:
  "(processData cfg data table = (Inr agg, table') \<longrightarrow>
      \<not> js_lt (Fin (real (sourceCount agg))) (minSourcesRequired cfg))
   \<and> (below_floor cfg pairData \<longrightarrow>
      processData_loop cfg ((pairKey, pairData) # rest) results table =
      processData_loop cfg rest results table)
   \<and> (js_lt (Fin 0) (minSourcesRequired cfg)
        \<and> (\<exists>(k, ds)\<in>set (groupDataByPair data). supported cfg k \<and> \<not> below_floor cfg ds) \<longrightarrow>
      (\<exists>a t. processData cfg data table = (Inr a, t)))
   \<and> ((\<forall>(k, ds)\<in>set (groupDataByPair data). \<not> supported cfg k \<or> below_floor cfg ds) \<longrightarrow>
      processData cfg data table =
        (Inl (ValidationError ''No valid aggregated price data available''), table))
   \<and> (fetchDataWithRetry config io = Inr data
        \<and> isValid (validateData cfg (Fin (of_int (now io))) data)
        \<and> (\<forall>(k, ds)\<in>set (groupDataByPair data). \<not> supported cfg k \<or> below_floor cfg ds) \<longrightarrow>
      errorCount (snd (performUpdate config cfg io st)) = errorCount st + 1)"
proof (intro conjI impI)
  assume "processData cfg data table = (Inr agg, table')"
  then show "\<not> js_lt (Fin (real (sourceCount agg))) (minSourcesRequired cfg)"
    by (rule processData_quorum)
next
  assume "below_floor cfg pairData"
  then show "processData_loop cfg ((pairKey, pairData) # rest) results table =
      processData_loop cfg rest results table"
    unfolding processData_loop_step by simp
next
  assume "js_lt (Fin 0) (minSourcesRequired cfg)
        \<and> (\<exists>(k, ds)\<in>set (groupDataByPair data). supported cfg k \<and> \<not> below_floor cfg ds)"
  then show "\<exists>a t. processData cfg data table = (Inr a, t)"
    using processData_returns [of cfg data table] by blast
next
  assume "\<forall>(k, ds)\<in>set (groupDataByPair data). \<not> supported cfg k \<or> below_floor cfg ds"
  then show "processData cfg data table =
        (Inl (ValidationError ''No valid aggregated price data available''), table)"
    by (rule processData_all_skipped)
next
  assume a: "fetchDataWithRetry config io = Inr data
        \<and> isValid (validateData cfg (Fin (of_int (now io))) data)
        \<and> (\<forall>(k, ds)\<in>set (groupDataByPair data). \<not> supported cfg k \<or> below_floor cfg ds)"
  then have "performUpdate_try config cfg io (lastPrices st) =
     (Inl (ValidationError ''No valid aggregated price data available''), lastPrices st)"
    using performUpdate_all_skipped [of config io data cfg "lastPrices st"] by blast
  then show "errorCount (snd (performUpdate config cfg io st)) = errorCount st + 1"
    by (simp add: performUpdate_def Let_def stop_errorCount)
qed

lemma below_floor_agree:
  "\<not> below_floor default_config [observed ''coingecko'' 100, observed ''binance'' 100]"
  by (simp add: below_floor_def removeOutliers_two default_config_fields)

lemma now_one_outlier: "now one_outlier = 1700000000500"
  by (simp add: one_outlier_def)

theorem processData_floor_witness:
  "\<not> js_lt (Fin (real (sourceCount agreed))) (minSourcesRequired default_config)
   \<and> processData_loop strict_config [(''BTC/USD'', four_and_one)] [] Map.empty
       = processData_loop strict_config [] [] Map.empty
   \<and> (\<exists>a t. processData default_config [observed ''coingecko'' 100, observed ''binance'' 100]
                Map.empty = (Inr a, t))
   \<and> processData strict_config four_and_one Map.empty =
        (Inl (ValidationError ''No valid aggregated price data available''), Map.empty)
   \<and> errorCount (snd (performUpdate default_oracle_config strict_config one_outlier initial_state))
        = errorCount initial_state + 1"
  using processData_floor
    [where cfg = default_config and data = "[observed ''coingecko'' 100, observed ''binance'' 100]"
       and table = Map.empty and agg = agreed and table' = "[''BTC/USD'' \<mapsto> agreed]"
       and pairData = "[]" and config = default_oracle_config and io = sources_down]
    processData_floor
    [where cfg = strict_config and data = four_and_one and table = Map.empty
       and pairData = four_and_one and pairKey = "''BTC/USD''" and rest = "[]" and results = "[]"
       and config = default_oracle_config and io = one_outlier and st = initial_state]
  by (simp add: process_agree group_agree group_four_and_one supported_btc_usd
      below_floor_four_and_one below_floor_agree default_config_fields fetch_one_outlier
      now_one_outlier validate_four_and_one)

text \<open>
  Claim C4 as stated fails at a cycle whose only pair falls below the floor. Five sources
  are required and all five report: four say 100, one says 150. The data passes
  \<open>validateData\<close>. Outlier removal at 1.5 deviations drops the fifth observation; the four
  left are below the floor, the pair is skipped, no pair is left, and \<open>processData\<close>
  throws. \<open>performUpdate\<close> counts a failed cycle. The claim says that a skip never raises an
  error nor counts as a cycle failure, also when every pair falls below the floor.
\<close>

theorem skip_of_every_pair_fails_cycle:
  "isValid (validateData strict_config (Fin 1700000000500) four_and_one)
   \<and> length (removeOutliers strict_config four_and_one) = 4
   \<and> processData strict_config four_and_one Map.empty =
        (Inl (ValidationError ''No valid aggregated price data available''), Map.empty)
   \<and> performUpdate_try default_oracle_config strict_config one_outlier Map.empty =
        (Inl (ValidationError ''No valid aggregated price data available''), Map.empty)
   \<and> errorCount (snd (performUpdate default_oracle_config strict_config one_outlier initial_state)) = 1"
proof -
  have skipped: "\<forall>(k, ds)\<in>set (groupDataByPair four_and_one).
      \<not> supported strict_config k \<or> below_floor strict_config ds"
    by (simp add: group_four_and_one below_floor_four_and_one)
  have valid: "isValid (validateData strict_config (Fin (of_int (now one_outlier))) four_and_one)"
    by (simp add: now_one_outlier validate_four_and_one)
  have failed: "performUpdate_try default_oracle_config strict_config one_outlier table =
        (Inl (ValidationError ''No valid aggregated price data available''), table)" for table
    using fetch_one_outlier valid skipped by (rule performUpdate_all_skipped)
  have "errorCount (snd (performUpdate default_oracle_config strict_config one_outlier initial_state)) = 1"
    by (simp add: performUpdate_def failed Let_def stop_errorCount initial_state_def)
  then show ?thesis
    using validate_four_and_one processData_all_skipped [OF skipped] failed
    by (simp add: removeOutliers_four_and_one)
qed

section \<open>The update gate inside a cycle\<close>

lemma keys_group_push: "set (map fst (group_push k d g)) = insert k (set (map fst g))"
proof (induction g)
  case Nil
  show ?case by simp
next
  case (Cons e g)
  obtain k' ds where e: "e = (k', ds)" by (cases e)
  show ?case
  proof (cases "k = k'")
    case True
    then show ?thesis by (simp add: e)
  next
    case False
    then show ?thesis using Cons.IH by (simp add: e insert_commute)
  qed
qed

lemma distinct_group_push:
  "distinct (map fst g) \<Longrightarrow> distinct (map fst (group_push k d g))"
proof (induction g)
  case Nil
  then show ?case by simp
next
  case (Cons e g)
  obtain k' ds where e: "e = (k', ds)" by (cases e)
  show ?case
  proof (cases "k = k'")
    case True
    with Cons.prems show ?thesis by (simp add: e)
  next
    case False
    have "k' \<notin> set (map fst (group_push k d g))"
      unfolding keys_group_push using Cons.prems False by (simp add: e)
    moreover have "distinct (map fst (group_push k d g))"
      using Cons.prems by (intro Cons.IH) (simp add: e)
    ultimately show ?thesis using False by (simp add: e)
  qed
qed

lemma members_group_push:
  assumes "\<forall>(k', ds)\<in>set g. \<forall>x\<in>set ds. data_key x = k'" and "data_key d = k"
  shows "\<forall>(k', ds)\<in>set (group_push k d g). \<forall>x\<in>set ds. data_key x = k'"
  using assms(1)
proof (induction g)
  case Nil
  then show ?case using assms(2) by simp
next
  case (Cons e g)
  obtain k' ds where e: "e = (k', ds)" by (cases e)
  from Cons.prems have here: "\<forall>x\<in>set ds. data_key x = k'"
    and there: "\<forall>(k', ds)\<in>set g. \<forall>x\<in>set ds. data_key x = k'"
    by (simp_all add: e)
  show ?case
  proof (cases "k = k'")
    case True
    with here there assms(2) show ?thesis by (simp add: e)
  next
    case False
    with here Cons.IH [OF there] show ?thesis by (simp add: e)
  qed
qed

lemma foldl_group_push:
  assumes "distinct (map fst g)" and "\<forall>(k', ds)\<in>set g. \<forall>x\<in>set ds. data_key x = k'"
  shows "distinct (map fst (foldl (\<lambda>grouped d. group_push (data_key d) d grouped) g data))
       \<and> (\<forall>(k', ds)\<in>set (foldl (\<lambda>grouped d. group_push (data_key d) d grouped) g data).
             \<forall>x\<in>set ds. data_key x = k')"
  using assms
proof (induction data arbitrary: g)
  case Nil
  then show ?case by simp
next
  case (Cons d data)
  have "distinct (map fst (group_push (data_key d) d g))"
    using Cons.prems(1) by (rule distinct_group_push)
  moreover have "\<forall>(k', ds)\<in>set (group_push (data_key d) d g). \<forall>x\<in>set ds. data_key x = k'"
    using Cons.prems(2) by (rule members_group_push) simp
  ultimately show ?case
    using Cons.IH [of "group_push (data_key d) d g"] by simp
qed

lemma groupDataByPair_keys:
  "distinct (map fst (groupDataByPair data))"
  "\<forall>(k, ds)\<in>set (groupDataByPair data). \<forall>x\<in>set ds. data_key x = k"
  using foldl_group_push [of "[]" data]
  by (simp_all add: groupDataByPair_def data_key_def)

text \<open>
  Every result that the loop adds is in the table under its own key when the loop ends:
  the keys of the groups are distinct, so no later group overwrites it.
\<close>

lemma processData_loop_stores:
  assumes "distinct (map fst gs)"
    and "\<forall>(k, ds)\<in>set gs. \<forall>x\<in>set ds. data_key x = k"
    and "processData_loop cfg gs acc lp = (Inr results, lp')"
  shows "\<exists>new. results = acc @ new \<and> (\<forall>a\<in>set new. lp' (agg_key a) = Some a)
           \<and> (\<forall>k. k \<notin> fst ` set gs \<longrightarrow> lp' k = lp k)"
  using assms
proof (induction gs arbitrary: acc lp)
  case Nil
  then show ?case by simp
next
  case (Cons g gs)
  obtain k ds where g: "g = (k, ds)" by (cases g)
  from Cons.prems(1) have dist: "distinct (map fst gs)" and fresh: "k \<notin> fst ` set gs"
    by (simp_all add: g)
  from Cons.prems(2) have keyed: "\<forall>(k, ds)\<in>set gs. \<forall>x\<in>set ds. data_key x = k"
    and mine: "\<forall>x\<in>set ds. data_key x = k"
    by (simp_all add: g)
  show ?case
  proof (cases "\<not> supported cfg k \<or> ds = [] \<or> below_floor cfg ds")
    case True
    with Cons.prems(3) have "processData_loop cfg gs acc lp = (Inr results, lp')"
      unfolding g processData_loop_step by simp
    from Cons.IH [OF dist keyed this] show ?thesis by (auto simp: g)
  next
    case False
    show ?thesis
    proof (cases "aggregatePrices cfg (removeOutliers cfg ds)")
      case (Inl e)
      with False Cons.prems(3) show ?thesis
        unfolding g processData_loop_step by simp
    next
      case (Inr a)
      with False Cons.prems(3)
      have run: "processData_loop cfg gs (acc @ [a]) (lp(k \<mapsto> a)) = (Inr results, lp')"
        unfolding g processData_loop_step by simp
      from Cons.IH [OF dist keyed run] obtain new where
        res: "results = (acc @ [a]) @ new"
        and stored: "\<forall>b\<in>set new. lp' (agg_key b) = Some b"
        and kept: "\<forall>k'. k' \<notin> fst ` set gs \<longrightarrow> lp' k' = (lp(k \<mapsto> a)) k'"
        by blast
      have ne: "removeOutliers cfg ds \<noteq> []"
        and key: "agg_key a = data_key (hd (removeOutliers cfg ds))"
        using aggregatePrices_Inr [OF Inr] by simp_all
      from ne have "hd (removeOutliers cfg ds) \<in> set ds"
        using set_removeOutliers [of cfg ds] hd_in_set [OF ne] by blast
      with mine key have "agg_key a = k" by simp
      with kept fresh have "lp' (agg_key a) = Some a" by simp
      with stored have "\<forall>b\<in>set (a # new). lp' (agg_key b) = Some b" by simp
      moreover have "results = acc @ (a # new)" using res by simp
      moreover have "\<forall>k'. k' \<notin> fst ` set (g # gs) \<longrightarrow> lp' k' = lp k'"
        using kept by (simp add: g)
      ultimately show ?thesis by blast
    qed
  qed
qed

lemma processData_stores_result:
  assumes "processData cfg data table = (Inr agg, table')"
  shows "table' (agg_key agg) = Some agg"
proof -
  obtain r lp' where run: "processData_loop cfg (groupDataByPair data) [] table = (r, lp')"
    by (cases "processData_loop cfg (groupDataByPair data) [] table")
  with assms obtain rest where r: "r = Inr (agg # rest)" and t: "lp' = table'"
    by (auto simp: processData_def split: sum.splits list.splits)
  from processData_loop_stores [OF groupDataByPair_keys run [unfolded r]]
  have "lp' (agg_key agg) = Some agg" by auto
  then show ?thesis by (simp add: t)
qed

text \<open>
  The gate inside a cycle. \<open>processData\<close> has stored the new aggregated price in
  \<open>lastPrices\<close> before \<open>submitToBlockchain\<close> reads the table, so the gate compares the
  new price with itself: under a deviation threshold above 0 it never opens, the ledger
  client is not called, and the cycle reports "skipped".
\<close>

lemma submit_after_processData:
  assumes "processData cfg data table = (Inr agg, table')"
    and "\<not> js_le (deviationThreshold cfg) (Fin 0)"
  shows "submitToBlockchain cfg table' send agg = Inr ''skipped''"
  using processData_stores_result [OF assms(1)] shouldUpdate_same_price [OF assms(2)]
  by (simp add: submitToBlockchain_def agg_key_def Let_def)

lemma cycle_never_commits:
  assumes "performUpdate_try config cfg io table = (Inr tx, table')"
    and "\<not> js_le (deviationThreshold cfg) (Fin 0)"
  shows "tx = ''skipped''"
  using assms(1) submit_after_processData [OF _ assms(2)]
  by (auto simp: performUpdate_try_def Let_def split: sum.splits if_splits prod.splits)

text \<open>The gate function alone, at the examples of the specification.\<close>

lemma shouldUpdate_examples:
  "\<not> shouldUpdate default_config (Fin 100) (Fin (201 / 2))"
  "shouldUpdate default_config (Fin 100) (Fin (203 / 2))"
  by (simp_all add: shouldUpdate_def default_config_fields js_ge_def js_sub_def)

lemma submit_without_previous:
  "table (agg_key agg) = None \<Longrightarrow> submitToBlockchain cfg table send agg = send agg"
  by (simp add: submitToBlockchain_def agg_key_def)

text \<open>
  Claim C1, at the first cycle of an oracle: the table of last prices is empty and two
  sources report 100 for BTC/USD. Asked alone, with the empty table, the gate would hand
  the aggregated price to the ledger client. In the cycle, \<open>processData\<close> has put that
  price into the table first; the gate finds it there as the previous price, the change
  is 0 percent, and the cycle ends with "skipped" whatever the ledger client would have
  answered. The claim says that the first aggregated observation of a pair is committed.
\<close>

theorem first_observation_not_committed:
  "(\<forall>send. submitToBlockchain default_config Map.empty send agreed = send agreed)
   \<and> (\<forall>send. performUpdate_try default_oracle_config default_config
                (sources_agree\<lparr>sendTransaction := send\<rparr>) Map.empty
              = (Inr ''skipped'', [''BTC/USD'' \<mapsto> agreed]))"
  by (simp add: submit_without_previous cycle_sources_agree)

end
